theory Spec2Isabelle
  imports Main "HOL-Library.Word" "HOL-Library.Sublist"
begin

section \<open>Go-style channels of lesomnus/channel-cpp\<close>

text \<open>
  The development embeds \<^verbatim>\<open>bounded_channel<T, Cap>\<close> (the header that declares
  \<^verbatim>\<open>unbounded_capacity\<close> and \<^verbatim>\<open>make_chan\<close>), the stand-alone class
  \<^verbatim>\<open>unbounded_channel<T>\<close> of \<^verbatim>\<open>unbounded_channel.hpp\<close> (the revision whose tasks carry
  \<^verbatim>\<open>need_abort\<close>), the operation wrappers \<^verbatim>\<open>recv\<close>/\<^verbatim>\<open>send\<close> and \<^verbatim>\<open>select\<close>.

  Scope of the model. Every member function locks \<^verbatim>\<open>mutex_\<close> for its whole body, so a
  member function is one atomic step on the channel and the channel mutex needs no
  counterpart. The mutex of \<^verbatim>\<open>select\<close> shows where its own thread would wait for it: such a
  call never returns. A blocking call that reaches its slow path registers its waiter and is then
  reported as \<open>Suspended\<close>: the model ends where the thread starts to wait. Callbacks are
  \<^verbatim>\<open>std::function\<close> objects: they are total functions on a world \<open>'w\<close> that holds everything
  a callback can touch. A callback runs under the channel's mutex and therefore cannot
  re-enter the channel, which is why the channel is not part of \<open>'w\<close>.
\<close>

subsection \<open>error.hpp\<close>

datatype channel_errc = ok | exhausted | closed | canceled

subsection \<open>detail/task.hpp\<close>

text \<open>\<^verbatim>\<open>need_abort\<close> is a \<^verbatim>\<open>std::function<bool()>\<close>; it may have an effect on the world (the
  predicate that \<^verbatim>\<open>select\<close> hands out does), so it returns the new world too.\<close>

record ('w, 'f) task =
  need_abort :: "'w \<Rightarrow> bool \<times> 'w"
  execute :: 'f

subsection \<open>Build parameters and program failure\<close>

text \<open>\<^verbatim>\<open>assert\<close> aborts the program unless \<^verbatim>\<open>NDEBUG\<close> is defined; \<open>T_default\<close> is the value of
  a default-constructed \<^verbatim>\<open>T\<close> (\<^verbatim>\<open>T v;\<close> and \<^verbatim>\<open>buffer_.emplace()\<close>).\<close>

record 'v build =
  NDEBUG :: bool
  T_default :: 'v

datatype error = AssertionFailed

definition assert_fails :: "'v build \<Rightarrow> bool \<Rightarrow> bool" where
  "assert_fails b e \<longleftrightarrow> \<not> NDEBUG b \<and> \<not> e"

text \<open>The state of an argument passed by forwarding reference \<^verbatim>\<open>U&&\<close>: \<^verbatim>\<open>std::forward<U>\<close> into
  a constructor moves out of an rvalue and copies an lvalue.\<close>

datatype value_category = LValue | RValue

datatype 'v slot = Holds 'v | MovedFrom

definition forwarded :: "value_category \<Rightarrow> 'v \<Rightarrow> 'v slot" where
  "forwarded U v = (case U of LValue \<Rightarrow> Holds v | RValue \<Rightarrow> MovedFrom)"

subsection \<open>bounded_channel: data\<close>

text \<open>\<^verbatim>\<open>inline constexpr std::size_t unbounded_capacity = -1;\<close> with a 64-bit \<^verbatim>\<open>std::size_t\<close>.\<close>

definition unbounded_capacity :: nat where
  "unbounded_capacity = 2 ^ 64 - 1"

text \<open>\<open>Cap\<close> is the template parameter; no operation changes it. The private members keep
  their names without the trailing underscore.\<close>

record ('v, 'w) chan =
  Cap :: nat
  is_closed :: bool
  buffer :: "'v list"
  hanged_recv_tasks :: "('w, bool \<Rightarrow> 'v \<Rightarrow> 'w \<Rightarrow> 'w) task list"
  hanged_send_tasks :: "('w, bool \<Rightarrow> 'v \<Rightarrow> 'w \<Rightarrow> 'v \<times> 'w) task list"

definition make_chan :: "nat \<Rightarrow> ('v, 'w) chan" where
  "make_chan n = \<lparr>Cap = n, is_closed = False, buffer = [],
     hanged_recv_tasks = [], hanged_send_tasks = []\<rparr>"

definition capacity :: "('v, 'w) chan \<Rightarrow> nat" where
  "capacity c = Cap c"

subsection \<open>size\<close>

text \<open>The member function is \<open>size_chan\<close> here: \<open>size\<close> is a constant of HOL.\<close>

text \<open>The loop \<^verbatim>\<open>while(!q.empty()) { if(!q.front().need_abort()) break; q.pop(); }\<close>.\<close>

fun pop_aborted :: "('w, 'f) task list \<Rightarrow> 'w \<Rightarrow> ('w, 'f) task list \<times> 'w" where
  "pop_aborted [] w = ([], w)"
| "pop_aborted (t # ts) w =
     (let (a, w') = need_abort t w in
      if \<not> a then (t # ts, w') else pop_aborted ts w')"

text \<open>The sum is computed in \<^verbatim>\<open>std::size_t\<close> and converted to \<^verbatim>\<open>std::intmax_t\<close>.\<close>

definition size_result :: "nat \<Rightarrow> nat \<Rightarrow> nat \<Rightarrow> int" where
  "size_result nb ns nr = sint (word_of_nat nb + word_of_nat ns - word_of_nat nr :: 64 word)"

definition size_chan :: "('v, 'w) chan \<Rightarrow> 'w \<Rightarrow> int \<times> ('v, 'w) chan \<times> 'w" where
  "size_chan c w =
     (let (rs, w1) = pop_aborted (hanged_recv_tasks c) w;
          (ss, w2) = (if Cap c \<noteq> unbounded_capacity
                      then pop_aborted (hanged_send_tasks c) w1
                      else (hanged_send_tasks c, w1))
      in (size_result (length (buffer c)) (length ss) (length rs),
          c\<lparr>hanged_recv_tasks := rs, hanged_send_tasks := ss\<rparr>, w2))"

subsection \<open>close\<close>

text \<open>\<^verbatim>\<open>while(!q.empty()) { auto& task = q.front(); if(!task.need_abort()) task.execute(false, ...); q.pop(); }\<close>
  The receive callbacks get the local \<^verbatim>\<open>T v\<close> as an rvalue; the send callbacks get it by
  reference and may write it.\<close>

fun close_recv_tasks ::
  "('w, bool \<Rightarrow> 'v \<Rightarrow> 'w \<Rightarrow> 'w) task list \<Rightarrow> 'v \<Rightarrow> 'w \<Rightarrow> 'w" where
  "close_recv_tasks [] v w = w"
| "close_recv_tasks (t # ts) v w =
     (let (a, w') = need_abort t w in
      close_recv_tasks ts v (if \<not> a then execute t False v w' else w'))"

fun close_send_tasks ::
  "('w, bool \<Rightarrow> 'v \<Rightarrow> 'w \<Rightarrow> 'v \<times> 'w) task list \<Rightarrow> 'v \<Rightarrow> 'w \<Rightarrow> 'w" where
  "close_send_tasks [] v w = w"
| "close_send_tasks (t # ts) v w =
     (let (a, w') = need_abort t w;
          (v', w'') = (if \<not> a then execute t False v w' else (v, w'))
      in close_send_tasks ts v' w'')"

definition close :: "'v build \<Rightarrow> ('v, 'w) chan \<Rightarrow> 'w \<Rightarrow> ('v, 'w) chan \<times> 'w" where
  "close b c w =
     (let w1 = close_recv_tasks (hanged_recv_tasks c) (T_default b) w in
      if Cap c \<noteq> unbounded_capacity
      then (c\<lparr>is_closed := True, hanged_recv_tasks := [], hanged_send_tasks := []\<rparr>,
            close_send_tasks (hanged_send_tasks c) (T_default b) w1)
      else (c\<lparr>is_closed := True, hanged_recv_tasks := []\<rparr>, w1))"

subsection \<open>try\_send\_ (the overload returning bool)\<close>

text \<open>The loop over \<^verbatim>\<open>hanged_recv_tasks\<close>: the result is whether a receiver took the value,
  the queue that is left and the world.\<close>

fun send_to_hanged_recv ::
  "'v build \<Rightarrow> 'v \<Rightarrow> 'v list \<Rightarrow> ('w, bool \<Rightarrow> 'v \<Rightarrow> 'w \<Rightarrow> 'w) task list \<Rightarrow> 'w
     \<Rightarrow> error + bool \<times> ('w, bool \<Rightarrow> 'v \<Rightarrow> 'w \<Rightarrow> 'w) task list \<times> 'w" where
  "send_to_hanged_recv b v buf [] w = Inr (False, [], w)"
| "send_to_hanged_recv b v buf (t # ts) w =
     (if assert_fails b (buf = []) then Inl AssertionFailed
      else let (a, w') = need_abort t w in
           if a then send_to_hanged_recv b v buf ts w'
           else Inr (True, ts, execute t True v w'))"

text \<open>The result is the returned bool, the state of the caller's \<^verbatim>\<open>value\<close>, the channel
  and the world.\<close>

definition try_send_priv ::
  "'v build \<Rightarrow> value_category \<Rightarrow> 'v \<Rightarrow> ('v, 'w) chan \<Rightarrow> 'w
     \<Rightarrow> error + bool \<times> 'v slot \<times> ('v, 'w) chan \<times> 'w" where
  "try_send_priv b U v c w =
     (if assert_fails b (\<not> is_closed c) then Inl AssertionFailed
      else case send_to_hanged_recv b v (buffer c) (hanged_recv_tasks c) w of
        Inl e \<Rightarrow> Inl e
      | Inr (True, rs, w') \<Rightarrow> Inr (True, forwarded U v, c\<lparr>hanged_recv_tasks := rs\<rparr>, w')
      | Inr (False, rs, w') \<Rightarrow>
          (let c' = c\<lparr>hanged_recv_tasks := rs\<rparr> in
           if Cap c = 0 then Inr (False, Holds v, c', w')
           else if Cap c \<noteq> unbounded_capacity \<and> length (buffer c) \<ge> Cap c
           then Inr (False, Holds v, c', w')
           else Inr (True, forwarded U v, c'\<lparr>buffer := buffer c @ [v]\<rparr>, w')))"

subsection \<open>try\_send (try\_send\_ with the error code)\<close>

definition try_send ::
  "'v build \<Rightarrow> value_category \<Rightarrow> 'v \<Rightarrow> ('v, 'w) chan \<Rightarrow> 'w
     \<Rightarrow> error + channel_errc \<times> 'v slot \<times> ('v, 'w) chan \<times> 'w" where
  "try_send b U v c w =
     (if is_closed c then Inr (closed, Holds v, c, w)
      else case try_send_priv b U v c w of
        Inl e \<Rightarrow> Inl e
      | Inr (r, s, c', w') \<Rightarrow>
          if Cap c = unbounded_capacity then Inr (ok, s, c', w')
          else if r then Inr (ok, s, c', w')
          else Inr (exhausted, s, c', w'))"

subsection \<open>try\_recv\_\<close>

text \<open>The drain loop of the buffered branch:
  \<^verbatim>\<open>while(!hanged_send_tasks.empty()) { assert(buffer_.size() < Cap); task = front;
  if(task.need_abort()) { pop; continue; } T& v = buffer_.emplace(); task.execute(true, v); }\<close>
  Nothing in the loop bounds the number of rounds (the task that was executed stays at the
  front), so the loop is a partial function: \<open>None\<close> is a loop that never ends.\<close>

partial_function (option) drain_hanged_send ::
  "'v build \<Rightarrow> ('v, 'w) chan \<Rightarrow> 'w \<Rightarrow> (error + ('v, 'w) chan \<times> 'w) option" where
  "drain_hanged_send b c w =
     (case hanged_send_tasks c of
        [] \<Rightarrow> Some (Inr (c, w))
      | t # ts \<Rightarrow>
          if assert_fails b (length (buffer c) < Cap c) then Some (Inl AssertionFailed)
          else let (a, w') = need_abort t w in
               if a then drain_hanged_send b (c\<lparr>hanged_send_tasks := ts\<rparr>) w'
               else let (x, w'') = execute t True (T_default b) w' in
                    drain_hanged_send b (c\<lparr>buffer := buffer c @ [x]\<rparr>) w'')"

text \<open>The loop of the rendezvous branch; \<open>v\<close> is the caller's \<^verbatim>\<open>value\<close>, which the sender's
  callback writes.\<close>

fun recv_from_hanged_send ::
  "'v build \<Rightarrow> nat \<Rightarrow> 'v \<Rightarrow> 'v list \<Rightarrow> ('w, bool \<Rightarrow> 'v \<Rightarrow> 'w \<Rightarrow> 'v \<times> 'w) task list \<Rightarrow> 'w
     \<Rightarrow> error + bool \<times> 'v \<times> ('w, bool \<Rightarrow> 'v \<Rightarrow> 'w \<Rightarrow> 'v \<times> 'w) task list \<times> 'w" where
  "recv_from_hanged_send b n v buf [] w = Inr (False, v, [], w)"
| "recv_from_hanged_send b n v buf (t # ts) w =
     (if assert_fails b (length buf \<ge> n) then Inl AssertionFailed
      else let (a, w') = need_abort t w in
           if a then recv_from_hanged_send b n v buf ts w'
           else let (v', w'') = execute t True v w' in Inr (True, v', ts, w''))"

text \<open>The result is the returned bool, the caller's \<^verbatim>\<open>value\<close> after the call, the channel
  and the world.\<close>

definition try_recv_priv ::
  "'v build \<Rightarrow> 'v \<Rightarrow> ('v, 'w) chan \<Rightarrow> 'w
     \<Rightarrow> (error + bool \<times> 'v \<times> ('v, 'w) chan \<times> 'w) option" where
  "try_recv_priv b v c w =
     (if assert_fails b (\<not> is_closed c) then Some (Inl AssertionFailed)
      else if Cap c \<noteq> 0 \<and> buffer c \<noteq> [] then
        (if assert_fails b (Cap c > 0) then Some (Inl AssertionFailed)
         else let c1 = c\<lparr>buffer := tl (buffer c)\<rparr> in
              if Cap c \<noteq> unbounded_capacity then
                (case drain_hanged_send b c1 w of
                   None \<Rightarrow> None
                 | Some (Inl e) \<Rightarrow> Some (Inl e)
                 | Some (Inr (c2, w2)) \<Rightarrow> Some (Inr (True, hd (buffer c), c2, w2)))
              else Some (Inr (True, hd (buffer c), c1, w)))
      else if Cap c \<noteq> unbounded_capacity \<and> hanged_send_tasks c \<noteq> [] then
        (if assert_fails b (Cap c = 0) then Some (Inl AssertionFailed)
         else case recv_from_hanged_send b (Cap c) v (buffer c) (hanged_send_tasks c) w of
                Inl e \<Rightarrow> Some (Inl e)
              | Inr (r, v', ss, w') \<Rightarrow> Some (Inr (r, v', c\<lparr>hanged_send_tasks := ss\<rparr>, w')))
      else Some (Inr (False, v, c, w)))"

subsection \<open>try\_recv\<close>

definition try_recv ::
  "'v build \<Rightarrow> 'v \<Rightarrow> ('v, 'w) chan \<Rightarrow> 'w
     \<Rightarrow> (error + channel_errc \<times> 'v \<times> ('v, 'w) chan \<times> 'w) option" where
  "try_recv b v c w =
     (if is_closed c then Some (Inr (closed, v, c, w))
      else case try_recv_priv b v c w of
        None \<Rightarrow> None
      | Some (Inl e) \<Rightarrow> Some (Inl e)
      | Some (Inr (r, v', c', w')) \<Rightarrow>
          Some (Inr (if r then ok else exhausted, v', c', w')))"

subsection \<open>recv\_sched and send\_sched\<close>

definition recv_sched ::
  "'v build \<Rightarrow> ('w \<Rightarrow> bool \<times> 'w) \<Rightarrow> (bool \<Rightarrow> 'v \<Rightarrow> 'w \<Rightarrow> 'w) \<Rightarrow> ('v, 'w) chan \<Rightarrow> 'w
     \<Rightarrow> (error + ('v, 'w) chan \<times> 'w) option" where
  "recv_sched b na on_settled c w =
     (if is_closed c then Some (Inr (c, on_settled False (T_default b) w))
      else case try_recv_priv b (T_default b) c w of
        None \<Rightarrow> None
      | Some (Inl e) \<Rightarrow> Some (Inl e)
      | Some (Inr (r, v', c', w')) \<Rightarrow>
          if r then Some (Inr (c', on_settled True v' w'))
          else Some (Inr (c'\<lparr>hanged_recv_tasks := hanged_recv_tasks c' @
                 [\<lparr>need_abort = na, execute = on_settled\<rparr>]\<rparr>, w')))"

text \<open>The parameter \<^verbatim>\<open>U&& value\<close> of \<^verbatim>\<open>send_sched_\<close> is a reference to an object of the caller.
  Here a reference is the function that reads the object in the world at hand. The task
  that \<^verbatim>\<open>send_sched_\<close> registers captures the reference, not the value:
  \<^verbatim>\<open>[&value, f](bool ok, T& dst) { if(ok) dst = std::forward<U>(value); f(ok); }\<close>,
  so it hands over what the object holds when the task is executed. (Reading an object
  that has been destroyed by then is undefined behaviour and has no counterpart here;
  what the hand-over leaves in the caller's object is not tracked.)\<close>

definition send_sched_task ::
  "('w \<Rightarrow> 'v) \<Rightarrow> ('w \<Rightarrow> bool \<times> 'w) \<Rightarrow> (bool \<Rightarrow> 'w \<Rightarrow> 'w)
     \<Rightarrow> ('w, bool \<Rightarrow> 'v \<Rightarrow> 'w \<Rightarrow> 'v \<times> 'w) task" where
  "send_sched_task obj na on_settled =
     \<lparr>need_abort = na,
      execute = (\<lambda>ok' dst w. (if ok' then obj w else dst, on_settled ok' w))\<rparr>"

text \<open>\<^verbatim>\<open>if constexpr(Cap == unbounded_capacity) {...} else if constexpr(Cap == 0) {...}\<close>: for
  every other capacity control reaches the registration directly.\<close>

text \<open>The fast paths pass the object on to \<^verbatim>\<open>try_send_\<close>, that is, what it holds at the
  call.\<close>

definition send_sched ::
  "'v build \<Rightarrow> value_category \<Rightarrow> ('w \<Rightarrow> 'v) \<Rightarrow> ('w \<Rightarrow> bool \<times> 'w) \<Rightarrow> (bool \<Rightarrow> 'w \<Rightarrow> 'w)
     \<Rightarrow> ('v, 'w) chan \<Rightarrow> 'w \<Rightarrow> error + ('v, 'w) chan \<times> 'w" where
  "send_sched b U obj na on_settled c w =
     (let reg = c\<lparr>hanged_send_tasks := hanged_send_tasks c @
                   [send_sched_task obj na on_settled]\<rparr> in
      if is_closed c then Inr (c, on_settled False w)
      else if Cap c = unbounded_capacity then
        (case try_send_priv b U (obj w) c w of
           Inl e \<Rightarrow> Inl e
         | Inr (r, s, c', w') \<Rightarrow> Inr (c', on_settled True w'))
      else if Cap c = 0 then
        (case try_send_priv b U (obj w) c w of
           Inl e \<Rightarrow> Inl e
         | Inr (r, s, c', w') \<Rightarrow>
             if r then Inr (c', on_settled True w')
             else Inr (c'\<lparr>hanged_send_tasks := hanged_send_tasks c' @
                    [send_sched_task obj na on_settled]\<rparr>, w'))
      else Inr (reg, w))"

subsection \<open>The world of a blocking call\<close>

text \<open>A blocking call owns, on its stack, the caller's \<^verbatim>\<open>value\<close> and \<^verbatim>\<open>ec\<close>, the mutex
  \<^verbatim>\<open>done\<close> and a \<^verbatim>\<open>task_stop_source\<close>; its task refers to them. The world keeps them under the
  number of the call. A \<^verbatim>\<open>std::stop_source\<close> is a number as well, \<open>stopped\<close> holds those on
  which \<^verbatim>\<open>request_stop()\<close> was called, and a \<^verbatim>\<open>std::stop_token\<close> is the number of its source, or
  \<open>None\<close> for \<^verbatim>\<open>std::stop_token{}\<close>. \<open>is_done\<close> holds the \<^verbatim>\<open>sched_context\<close>s of \<^verbatim>\<open>select\<close> whose
  flag is set, and \<open>user\<close> is whatever the callbacks of the user write.\<close>

record ('v, 'u) world =
  next_id :: nat
  stopped :: "nat set"
  done_locked :: "nat set"
  ec_ref :: "nat \<Rightarrow> channel_errc option"
  value_ref :: "nat \<Rightarrow> 'v slot option"
  is_done :: "nat set"
  user :: 'u

definition stop_requested :: "nat option \<Rightarrow> ('v, 'u) world \<Rightarrow> bool" where
  "stop_requested token w = (case token of None \<Rightarrow> False | Some s \<Rightarrow> s \<in> stopped w)"

datatype 'a call = Returned 'a | Suspended nat

text \<open>What the \<^verbatim>\<open>std::stop_callback on_cancel\<close> of a blocking call runs when the caller's
  token is tripped while the call waits. Registering it with the token and tripping the
  token belong to the host's stop-token facility: the environment applies \<open>on_cancel\<close>
  to the world.\<close>

definition on_cancel :: "nat \<Rightarrow> ('v, 'u) world \<Rightarrow> ('v, 'u) world" where
  "on_cancel i w =
     (if i \<in> stopped w then w
      else w\<lparr>ec_ref := (ec_ref w)(i \<mapsto> canceled),
             done_locked := done_locked w - {i},
             stopped := insert i (stopped w)\<rparr>)"

subsection \<open>recv\<close>

definition hanged_recv_task ::
  "nat \<Rightarrow> (('v, 'u) world, bool \<Rightarrow> 'v \<Rightarrow> ('v, 'u) world \<Rightarrow> ('v, 'u) world) task" where
  "hanged_recv_task i =
     \<lparr>need_abort = (\<lambda>w. (i \<in> stopped w, w)),
      execute = (\<lambda>is_ok src w.
        if is_ok
        then w\<lparr>stopped := insert i (stopped w),
               value_ref := (value_ref w)(i \<mapsto> Holds src),
               ec_ref := (ec_ref w)(i \<mapsto> ok),
               done_locked := done_locked w - {i}\<rparr>
        else w\<lparr>stopped := insert i (stopped w),
               ec_ref := (ec_ref w)(i \<mapsto> closed),
               done_locked := done_locked w - {i}\<rparr>)\<rparr>"

text \<open>The result of a call that returns is the error code and the caller's \<^verbatim>\<open>value\<close>.\<close>

definition recv ::
  "'v build \<Rightarrow> nat option \<Rightarrow> 'v \<Rightarrow> ('v, ('v, 'u) world) chan \<Rightarrow> ('v, 'u) world
     \<Rightarrow> (error + (channel_errc \<times> 'v) call \<times> ('v, ('v, 'u) world) chan \<times> ('v, 'u) world) option"
  where
  "recv b token v c w =
     (if stop_requested token w then Some (Inr (Returned (canceled, v), c, w))
      else if is_closed c then Some (Inr (Returned (closed, v), c, w))
      else case try_recv_priv b v c w of
        None \<Rightarrow> None
      | Some (Inl e) \<Rightarrow> Some (Inl e)
      | Some (Inr (r, v', c', w')) \<Rightarrow>
          if r then Some (Inr (Returned (ok, v'), c', w'))
          else let i = next_id w' in
               Some (Inr (Suspended i,
                 c'\<lparr>hanged_recv_tasks := hanged_recv_tasks c' @ [hanged_recv_task i]\<rparr>,
                 w'\<lparr>next_id := Suc i,
                    done_locked := insert i (done_locked w'),
                    value_ref := (value_ref w')(i \<mapsto> Holds v')\<rparr>)))"

subsection \<open>send\_\<close>

definition hanged_send_task ::
  "value_category \<Rightarrow> nat \<Rightarrow> 'v
     \<Rightarrow> (('v, 'u) world, bool \<Rightarrow> 'v \<Rightarrow> ('v, 'u) world \<Rightarrow> 'v \<times> ('v, 'u) world) task" where
  "hanged_send_task U i v =
     \<lparr>need_abort = (\<lambda>w. (i \<in> stopped w, w)),
      execute = (\<lambda>is_ok dst w.
        if is_ok
        then (v, w\<lparr>stopped := insert i (stopped w),
                   value_ref := (value_ref w)(i \<mapsto> forwarded U v),
                   ec_ref := (ec_ref w)(i \<mapsto> ok),
                   done_locked := done_locked w - {i}\<rparr>)
        else (dst, w\<lparr>stopped := insert i (stopped w),
                     ec_ref := (ec_ref w)(i \<mapsto> closed),
                     done_locked := done_locked w - {i}\<rparr>))\<rparr>"

text \<open>The result of a call that returns is the error code and the state of the caller's
  \<^verbatim>\<open>value\<close>.\<close>

definition send ::
  "'v build \<Rightarrow> value_category \<Rightarrow> nat option \<Rightarrow> 'v \<Rightarrow> ('v, ('v, 'u) world) chan
     \<Rightarrow> ('v, 'u) world
     \<Rightarrow> error + (channel_errc \<times> 'v slot) call \<times> ('v, ('v, 'u) world) chan \<times> ('v, 'u) world"
  where
  "send b U token v c w =
     (if stop_requested token w then Inr (Returned (canceled, Holds v), c, w)
      else if is_closed c then Inr (Returned (closed, Holds v), c, w)
      else case try_send_priv b U v c w of
        Inl e \<Rightarrow> Inl e
      | Inr (r, s, c', w') \<Rightarrow>
          if Cap c = unbounded_capacity then Inr (Returned (ok, s), c', w')
          else if r then Inr (Returned (ok, s), c', w')
          else let i = next_id w' in
               Inr (Suspended i,
                 c'\<lparr>hanged_send_tasks := hanged_send_tasks c' @ [hanged_send_task U i v]\<rparr>,
                 w'\<lparr>next_id := Suc i,
                    done_locked := insert i (done_locked w'),
                    value_ref := (value_ref w')(i \<mapsto> s)\<rparr>))"

subsection \<open>unbounded\_channel.hpp: the class unbounded\_channel\<close>

text \<open>The class has no queue of hanged senders and no capacity parameter; its members
  are prefixed with \<open>uc\<close> here.\<close>

record ('v, 'w) uchan =
  uc_is_closed :: bool
  uc_buffer :: "'v list"
  uc_hanged_recv_tasks :: "('w, bool \<Rightarrow> 'v \<Rightarrow> 'w \<Rightarrow> 'w) task list"

text \<open>A fresh object, by the default member initialisers.\<close>

definition uc_make_chan :: "('v, 'w) uchan" where
  "uc_make_chan = \<lparr>uc_is_closed = False, uc_buffer = [], uc_hanged_recv_tasks = []\<rparr>"

definition uc_size :: "('v, 'w) uchan \<Rightarrow> 'w \<Rightarrow> int \<times> ('v, 'w) uchan \<times> 'w" where
  "uc_size c w =
     (let (rs, w1) = pop_aborted (uc_hanged_recv_tasks c) w in
      (sint (word_of_nat (length (uc_buffer c)) - word_of_nat (length rs) :: 64 word),
       c\<lparr>uc_hanged_recv_tasks := rs\<rparr>, w1))"

definition uc_capacity :: "('v, 'w) uchan \<Rightarrow> nat" where
  "uc_capacity c = 2 ^ 64 - 1"

definition uc_close :: "'v build \<Rightarrow> ('v, 'w) uchan \<Rightarrow> 'w \<Rightarrow> ('v, 'w) uchan \<times> 'w" where
  "uc_close b c w =
     (c\<lparr>uc_is_closed := True, uc_hanged_recv_tasks := []\<rparr>,
      close_recv_tasks (uc_hanged_recv_tasks c) (T_default b) w)"

definition uc_try_recv_priv :: "'v \<Rightarrow> ('v, 'w) uchan \<Rightarrow> bool \<times> 'v \<times> ('v, 'w) uchan" where
  "uc_try_recv_priv v c =
     (if uc_buffer c = [] then (False, v, c)
      else (True, hd (uc_buffer c), c\<lparr>uc_buffer := tl (uc_buffer c)\<rparr>))"

definition uc_try_send_priv ::
  "'v build \<Rightarrow> value_category \<Rightarrow> 'v \<Rightarrow> ('v, 'w) uchan \<Rightarrow> 'w
     \<Rightarrow> error + bool \<times> 'v slot \<times> ('v, 'w) uchan \<times> 'w" where
  "uc_try_send_priv b U v c w =
     (if assert_fails b (\<not> uc_is_closed c) then Inl AssertionFailed
      else case send_to_hanged_recv b v (uc_buffer c) (uc_hanged_recv_tasks c) w of
        Inl e \<Rightarrow> Inl e
      | Inr (True, rs, w') \<Rightarrow> Inr (True, forwarded U v, c\<lparr>uc_hanged_recv_tasks := rs\<rparr>, w')
      | Inr (False, rs, w') \<Rightarrow>
          Inr (True, forwarded U v,
               c\<lparr>uc_hanged_recv_tasks := rs, uc_buffer := uc_buffer c @ [v]\<rparr>, w'))"

definition uc_try_recv ::
  "'v \<Rightarrow> ('v, 'w) uchan \<Rightarrow> channel_errc \<times> 'v \<times> ('v, 'w) uchan" where
  "uc_try_recv v c =
     (if uc_is_closed c then (closed, v, c)
      else let (r, v', c') = uc_try_recv_priv v c in
           (if r then ok else exhausted, v', c'))"

definition uc_try_send ::
  "'v build \<Rightarrow> value_category \<Rightarrow> 'v \<Rightarrow> ('v, 'w) uchan \<Rightarrow> 'w
     \<Rightarrow> error + channel_errc \<times> 'v slot \<times> ('v, 'w) uchan \<times> 'w" where
  "uc_try_send b U v c w =
     (if uc_is_closed c then Inr (closed, Holds v, c, w)
      else case uc_try_send_priv b U v c w of
        Inl e \<Rightarrow> Inl e
      | Inr (r, s, c', w') \<Rightarrow> Inr (ok, s, c', w'))"

definition uc_recv ::
  "nat option \<Rightarrow> 'v \<Rightarrow> ('v, ('v, 'u) world) uchan \<Rightarrow> ('v, 'u) world
     \<Rightarrow> (channel_errc \<times> 'v) call \<times> ('v, ('v, 'u) world) uchan \<times> ('v, 'u) world" where
  "uc_recv token v c w =
     (if stop_requested token w then (Returned (canceled, v), c, w)
      else if uc_is_closed c then (Returned (closed, v), c, w)
      else let (r, v', c') = uc_try_recv_priv v c in
           if r then (Returned (ok, v'), c', w)
           else let i = next_id w in
                (Suspended i,
                 c'\<lparr>uc_hanged_recv_tasks := uc_hanged_recv_tasks c' @ [hanged_recv_task i]\<rparr>,
                 w\<lparr>next_id := Suc i,
                   done_locked := insert i (done_locked w),
                   value_ref := (value_ref w)(i \<mapsto> Holds v')\<rparr>))"

definition uc_send ::
  "'v build \<Rightarrow> value_category \<Rightarrow> nat option \<Rightarrow> 'v \<Rightarrow> ('v, ('v, 'u) world) uchan
     \<Rightarrow> ('v, 'u) world
     \<Rightarrow> error + (channel_errc \<times> 'v slot) \<times> ('v, ('v, 'u) world) uchan \<times> ('v, 'u) world"
  where
  "uc_send b U token v c w =
     (if stop_requested token w then Inr ((canceled, Holds v), c, w)
      else if uc_is_closed c then Inr ((closed, Holds v), c, w)
      else case uc_try_send_priv b U v c w of
        Inl e \<Rightarrow> Inl e
      | Inr (r, s, c', w') \<Rightarrow> Inr ((ok, s), c', w'))"

definition uc_recv_sched ::
  "'v build \<Rightarrow> ('w \<Rightarrow> bool \<times> 'w) \<Rightarrow> (bool \<Rightarrow> 'v \<Rightarrow> 'w \<Rightarrow> 'w) \<Rightarrow> ('v, 'w) uchan \<Rightarrow> 'w
     \<Rightarrow> ('v, 'w) uchan \<times> 'w" where
  "uc_recv_sched b na on_settled c w =
     (if uc_is_closed c then (c, on_settled False (T_default b) w)
      else let (r, v', c') = uc_try_recv_priv (T_default b) c in
           if r then (c', on_settled True v' w)
           else (c'\<lparr>uc_hanged_recv_tasks := uc_hanged_recv_tasks c' @
                  [\<lparr>need_abort = na, execute = on_settled\<rparr>]\<rparr>, w))"

definition uc_send_sched ::
  "'v build \<Rightarrow> value_category \<Rightarrow> ('w \<Rightarrow> 'v) \<Rightarrow> ('w \<Rightarrow> bool \<times> 'w) \<Rightarrow> (bool \<Rightarrow> 'w \<Rightarrow> 'w)
     \<Rightarrow> ('v, 'w) uchan \<Rightarrow> 'w \<Rightarrow> error + ('v, 'w) uchan \<times> 'w" where
  "uc_send_sched b U obj na on_settled c w =
     (if uc_is_closed c then Inr (c, on_settled False w)
      else case uc_try_send_priv b U (obj w) c w of
        Inl e \<Rightarrow> Inl e
      | Inr (r, s, c', w') \<Rightarrow> Inr (c', on_settled r w'))"

subsection \<open>select.hpp: the operation wrappers\<close>

text \<open>An operation holds a reference \<^verbatim>\<open>receiver<T>&\<close> or \<^verbatim>\<open>sender<T>&\<close>, and the call through it
  is virtual: the object is an instance of either class. The channels live in a store, a
  reference is an index into it.\<close>

datatype ('v, 'w) channel = Bounded "('v, 'w) chan" | Unbounded "('v, 'w) uchan"

record ('v, 'w) sys =
  chans :: "nat \<Rightarrow> ('v, 'w) channel"
  env :: 'w

definition chan_try_recv ::
  "'v build \<Rightarrow> 'v \<Rightarrow> ('v, 'w) channel \<Rightarrow> 'w
     \<Rightarrow> (error + channel_errc \<times> 'v \<times> ('v, 'w) channel \<times> 'w) option" where
  "chan_try_recv b v ch w =
     (case ch of
        Bounded c \<Rightarrow>
          map_option (map_sum id (\<lambda>(ec, v', c', w'). (ec, v', Bounded c', w'))) (try_recv b v c w)
      | Unbounded c \<Rightarrow>
          (let (ec, v', c') = uc_try_recv v c in Some (Inr (ec, v', Unbounded c', w))))"

definition chan_try_send ::
  "'v build \<Rightarrow> value_category \<Rightarrow> 'v \<Rightarrow> ('v, 'w) channel \<Rightarrow> 'w
     \<Rightarrow> error + channel_errc \<times> 'v slot \<times> ('v, 'w) channel \<times> 'w" where
  "chan_try_send b U v ch w =
     (case ch of
        Bounded c \<Rightarrow> map_sum id (\<lambda>(ec, s, c', w'). (ec, s, Bounded c', w')) (try_send b U v c w)
      | Unbounded c \<Rightarrow>
          map_sum id (\<lambda>(ec, s, c', w'). (ec, s, Unbounded c', w')) (uc_try_send b U v c w))"

definition chan_recv_sched ::
  "'v build \<Rightarrow> ('w \<Rightarrow> bool \<times> 'w) \<Rightarrow> (bool \<Rightarrow> 'v \<Rightarrow> 'w \<Rightarrow> 'w) \<Rightarrow> ('v, 'w) channel \<Rightarrow> 'w
     \<Rightarrow> (error + ('v, 'w) channel \<times> 'w) option" where
  "chan_recv_sched b na on_settled ch w =
     (case ch of
        Bounded c \<Rightarrow>
          map_option (map_sum id (\<lambda>(c', w'). (Bounded c', w'))) (recv_sched b na on_settled c w)
      | Unbounded c \<Rightarrow>
          (let (c', w') = uc_recv_sched b na on_settled c w in Some (Inr (Unbounded c', w'))))"

definition chan_send_sched ::
  "'v build \<Rightarrow> value_category \<Rightarrow> ('w \<Rightarrow> 'v) \<Rightarrow> ('w \<Rightarrow> bool \<times> 'w) \<Rightarrow> (bool \<Rightarrow> 'w \<Rightarrow> 'w)
     \<Rightarrow> ('v, 'w) channel \<Rightarrow> 'w \<Rightarrow> error + ('v, 'w) channel \<times> 'w" where
  "chan_send_sched b U v na on_settled ch w =
     (case ch of
        Bounded c \<Rightarrow>
          map_sum id (\<lambda>(c', w'). (Bounded c', w')) (send_sched b U v na on_settled c w)
      | Unbounded c \<Rightarrow>
          map_sum id (\<lambda>(c', w'). (Unbounded c', w')) (uc_send_sched b U v na on_settled c w))"

text \<open>\<^verbatim>\<open>recv(chan, on_settle)\<close> and \<^verbatim>\<open>send(chan, value, on_settle)\<close>.\<close>

datatype ('v, 'w) op =
    recv_op nat "bool \<Rightarrow> 'v \<Rightarrow> 'w \<Rightarrow> 'w"
  | send_op value_category nat 'v "bool \<Rightarrow> 'w \<Rightarrow> 'w"

definition try_execute ::
  "'v build \<Rightarrow> ('v, 'w) op \<Rightarrow> ('v, 'w) sys \<Rightarrow> (error + bool \<times> ('v, 'w) sys) option" where
  "try_execute b opn s =
     (case opn of
        recv_op k on_settle \<Rightarrow>
          (case chan_try_recv b (T_default b) (chans s k) (env s) of
             None \<Rightarrow> None
           | Some (Inl e) \<Rightarrow> Some (Inl e)
           | Some (Inr (ec, v, ch, w)) \<Rightarrow>
               if ec = exhausted
               then Some (Inr (False, s\<lparr>chans := (chans s)(k := ch), env := w\<rparr>))
               else Some (Inr (True, s\<lparr>chans := (chans s)(k := ch),
                                         env := on_settle (ec = ok) v w\<rparr>)))
      | send_op U k v on_settle \<Rightarrow>
          (case chan_try_send b U v (chans s k) (env s) of
             Inl e \<Rightarrow> Some (Inl e)
           | Inr (ec, sl, ch, w) \<Rightarrow>
               if ec = exhausted
               then Some (Inr (False, s\<lparr>chans := (chans s)(k := ch), env := w\<rparr>))
               else Some (Inr (True, s\<lparr>chans := (chans s)(k := ch),
                                         env := on_settle (ec = ok) w\<rparr>))))"

text \<open>\<^verbatim>\<open>send::schedule\<close> passes a reference to the member \<^verbatim>\<open>value_\<close> of the operation object.
  The object is a parameter of \<^verbatim>\<open>select\<close>, lives as long as the call and is not part of the
  world: reading the member gives its value in every world.\<close>

definition member_ref :: "'v \<Rightarrow> 'w \<Rightarrow> 'v" where
  "member_ref v w = v"

definition schedule ::
  "'v build \<Rightarrow> ('v, 'w) op \<Rightarrow> ('w \<Rightarrow> bool \<times> 'w) \<Rightarrow> ('v, 'w) sys
     \<Rightarrow> (error + ('v, 'w) sys) option" where
  "schedule b opn na s =
     (case opn of
        recv_op k on_settle \<Rightarrow>
          (case chan_recv_sched b na on_settle (chans s k) (env s) of
             None \<Rightarrow> None
           | Some (Inl e) \<Rightarrow> Some (Inl e)
           | Some (Inr (ch, w)) \<Rightarrow> Some (Inr (s\<lparr>chans := (chans s)(k := ch), env := w\<rparr>)))
      | send_op U k v on_settle \<Rightarrow>
          (case chan_send_sched b U (member_ref v) na on_settle (chans s k) (env s) of
             Inl e \<Rightarrow> Some (Inl e)
           | Inr (ch, w) \<Rightarrow> Some (Inr (s\<lparr>chans := (chans s)(k := ch), env := w\<rparr>))))"

subsection \<open>select\<close>

text \<open>The first fold expression: \<^verbatim>\<open>if(is_executed) return; is_executed = op.try_execute();\<close>
  for every operation, from left to right.\<close>

fun try_execute_all ::
  "'v build \<Rightarrow> bool \<Rightarrow> ('v, 'w) op list \<Rightarrow> ('v, 'w) sys
     \<Rightarrow> (error + bool \<times> ('v, 'w) sys) option" where
  "try_execute_all b is_executed [] s = Some (Inr (is_executed, s))"
| "try_execute_all b is_executed (opn # ops) s =
     (if is_executed then try_execute_all b is_executed ops s
      else case try_execute b opn s of
        None \<Rightarrow> None
      | Some (Inl e) \<Rightarrow> Some (Inl e)
      | Some (Inr (r, s')) \<Rightarrow> try_execute_all b r ops s')"

text \<open>\<^verbatim>\<open>cancel\<close> sets \<^verbatim>\<open>ctx->is_done\<close> and unlocks \<^verbatim>\<open>done\<close>; \<^verbatim>\<open>need_abort\<close> is the predicate handed
  to every operation, and \<open>select_on_cancel\<close> is what the \<^verbatim>\<open>std::stop_callback\<close> of \<^verbatim>\<open>select\<close>
  runs when the caller's token is tripped. Both lock \<^verbatim>\<open>ctx->mutex\<close> first.\<close>

definition cancel :: "nat \<Rightarrow> ('v, 'u) world \<Rightarrow> ('v, 'u) world" where
  "cancel i w = w\<lparr>is_done := insert i (is_done w), done_locked := done_locked w - {i}\<rparr>"

definition select_need_abort :: "nat \<Rightarrow> ('v, 'u) world \<Rightarrow> bool \<times> ('v, 'u) world" where
  "select_need_abort i w = (if i \<in> is_done w then (True, w) else (False, cancel i w))"

definition select_on_cancel :: "nat \<Rightarrow> ('v, 'u) world \<Rightarrow> ('v, 'u) world" where
  "select_on_cancel i w = (if i \<in> is_done w then w else cancel i w)"

text \<open>The second fold expression: \<^verbatim>\<open>op.schedule(need_abort)\<close> for every operation, with the
  predicate of the context \<open>i\<close>. \<^verbatim>\<open>select\<close> holds \<^verbatim>\<open>ctx->mutex\<close> from the creation of the context
  until the last operation is scheduled. When an operation that is being scheduled asks
  the predicate of this very context (a waiter that \<^verbatim>\<open>select\<close> has just registered stands in
  a queue that the operation inspects), the predicate waits for \<^verbatim>\<open>ctx->mutex\<close>, which its own
  thread holds, and the call never returns. The context is private to \<^verbatim>\<open>select\<close> and fresh,
  so its flag is set after an operation exactly when that operation asked the predicate:
  the result is then \<open>None\<close>.\<close>

fun schedule_all ::
  "'v build \<Rightarrow> nat \<Rightarrow> ('v, ('v, 'u) world) op list \<Rightarrow> ('v, ('v, 'u) world) sys
     \<Rightarrow> (error + ('v, ('v, 'u) world) sys) option" where
  "schedule_all b i [] s = Some (Inr s)"
| "schedule_all b i (opn # ops) s =
     (case schedule b opn (select_need_abort i) s of
        None \<Rightarrow> None
      | Some (Inl e) \<Rightarrow> Some (Inl e)
      | Some (Inr s') \<Rightarrow>
          if i \<in> is_done (env s') then None else schedule_all b i ops s')"

text \<open>\<open>fallback\<close> is \<open>None\<close> for \<^verbatim>\<open>nullptr\<close>. The constructor of \<^verbatim>\<open>std::stop_callback\<close> runs the
  callback at once when the token is already stop-requested; the callback then waits
  for \<^verbatim>\<open>ctx->mutex\<close>, which \<^verbatim>\<open>select\<close> holds, and the call never returns. Otherwise the
  operations are scheduled and the call waits on \<^verbatim>\<open>done\<close>, or returns if \<^verbatim>\<open>done\<close> is unlocked.
  What a token that is tripped later does is \<open>select_on_cancel\<close>, applied by the
  environment.\<close>

definition select ::
  "'v build \<Rightarrow> nat option \<Rightarrow> ('v, ('v, 'u) world) op list
     \<Rightarrow> (('v, ('v, 'u) world) sys \<Rightarrow> ('v, ('v, 'u) world) sys) option
     \<Rightarrow> ('v, ('v, 'u) world) sys
     \<Rightarrow> (error + unit call \<times> ('v, ('v, 'u) world) sys) option" where
  "select b token ops fallback s =
     (case try_execute_all b False ops s of
        None \<Rightarrow> None
      | Some (Inl e) \<Rightarrow> Some (Inl e)
      | Some (Inr (is_executed, s1)) \<Rightarrow>
          if is_executed then Some (Inr (Returned (), s1))
          else case fallback of
            Some f \<Rightarrow> Some (Inr (Returned (), f s1))
          | None \<Rightarrow>
              (let i = next_id (env s1);
                   w1 = (env s1)\<lparr>next_id := Suc i, done_locked := insert i (done_locked (env s1))\<rparr>
               in if stop_requested token w1 then None
                  else case schedule_all b i ops (s1\<lparr>env := w1\<rparr>) of
                    None \<Rightarrow> None
                  | Some (Inl e) \<Rightarrow> Some (Inl e)
                  | Some (Inr s2) \<Rightarrow>
                      Some (Inr (if i \<in> done_locked (env s2) then Suspended i else Returned (),
                                 s2))))"

section \<open>Auxiliary definitions for the statements\<close>

subsection \<open>Concrete builds and worlds\<close>

text \<open>The callbacks of the examples log into \<open>user\<close>, a list of numbers.\<close>

definition world0 :: "(nat, nat list) world" where
  "world0 = \<lparr>next_id = 0, stopped = {}, done_locked = {}, ec_ref = (\<lambda>_. None),
     value_ref = (\<lambda>_. None), is_done = {}, user = []\<rparr>"

definition debug_build :: "nat build" where
  "debug_build = \<lparr>NDEBUG = False, T_default = 0\<rparr>"

definition release_build :: "nat build" where
  "release_build = \<lparr>NDEBUG = True, T_default = 0\<rparr>"

text \<open>A world in which the stop source 0 of the user has been asked to stop.\<close>

definition world_stopped :: "(nat, nat list) world" where
  "world_stopped = world0\<lparr>next_id := 1, stopped := {0}\<rparr>"

text \<open>A closed channel of capacity 2 that still buffers a value, with the same state as
  an instance of the stand-alone class.\<close>

definition chan_closed_buffered :: "(nat, (nat, nat list) world) chan" where
  "chan_closed_buffered = (make_chan 2)\<lparr>is_closed := True, buffer := [7]\<rparr>"

definition uchan_closed_buffered :: "(nat, (nat, nat list) world) uchan" where
  "uchan_closed_buffered = \<lparr>uc_is_closed = True, uc_buffer = [7], uc_hanged_recv_tasks = []\<rparr>"

text \<open>A full channel of capacity 1 on which the blocking \<^verbatim>\<open>send(2)\<close> of call 0 hangs, and
  the world of that call.\<close>

definition chan_full_one_sender :: "(nat, (nat, nat list) world) chan" where
  "chan_full_one_sender =
     (make_chan 1)\<lparr>buffer := [1], hanged_send_tasks := [hanged_send_task RValue 0 2]\<rparr>"

definition world_one_call :: "(nat, nat list) world" where
  "world_one_call = world0\<lparr>next_id := 1, done_locked := {0},
     value_ref := (value_ref world0)(0 \<mapsto> Holds 2)\<rparr>"

text \<open>An open channel of capacity 2 that buffers a value, and the same for the stand-alone
  class; \<open>chan_closed_buffered\<close> is what \<^verbatim>\<open>close()\<close> makes of it.\<close>

definition chan_open_buffered :: "(nat, (nat, nat list) world) chan" where
  "chan_open_buffered = (make_chan 2)\<lparr>buffer := [7]\<rparr>"

definition uchan_open_buffered :: "(nat, (nat, nat list) world) uchan" where
  "uchan_open_buffered = \<lparr>uc_is_closed = False, uc_buffer = [7], uc_hanged_recv_tasks = []\<rparr>"

definition chan_unbounded_buffered :: "(nat, (nat, nat list) world) chan" where
  "chan_unbounded_buffered = (make_chan unbounded_capacity)\<lparr>buffer := [7]\<rparr>"

text \<open>The predicate \<^verbatim>\<open>[] { return false; }\<close> and a callback that logs its argument.\<close>

definition never_abort :: "(nat, nat list) world \<Rightarrow> bool \<times> (nat, nat list) world" where
  "never_abort w = (False, w)"

definition log_settled :: "nat \<Rightarrow> bool \<Rightarrow> (nat, nat list) world \<Rightarrow> (nat, nat list) world" where
  "log_settled k r w = w\<lparr>user := user w @ [if r then k + 1 else k]\<rparr>"

text \<open>A full channel of capacity 1 on which the blocking \<^verbatim>\<open>send(2)\<close> of call 0 and the
  blocking \<^verbatim>\<open>send(3)\<close> of call 1 hang, and the world of the two calls.\<close>

definition chan_full_two_senders :: "(nat, (nat, nat list) world) chan" where
  "chan_full_two_senders =
     (make_chan 1)\<lparr>buffer := [1],
       hanged_send_tasks := [hanged_send_task RValue 0 2, hanged_send_task RValue 1 3]\<rparr>"

definition world_two_calls :: "(nat, nat list) world" where
  "world_two_calls = world0\<lparr>next_id := 2, done_locked := {1, 0},
     value_ref := (value_ref world0)(0 \<mapsto> Holds 2, 1 \<mapsto> Holds 3)\<rparr>"

text \<open>A rendezvous channel on which the blocking \<^verbatim>\<open>recv\<close> of call 0 and of call 1 hang, the
  same for the stand-alone class, and the world of the two calls.\<close>

definition chan_two_receivers :: "(nat, (nat, nat list) world) chan" where
  "chan_two_receivers =
     (make_chan 0)\<lparr>hanged_recv_tasks := [hanged_recv_task 0, hanged_recv_task 1]\<rparr>"

definition uchan_two_receivers :: "(nat, (nat, nat list) world) uchan" where
  "uchan_two_receivers = \<lparr>uc_is_closed = False, uc_buffer = [],
     uc_hanged_recv_tasks = [hanged_recv_task 0, hanged_recv_task 1]\<rparr>"

definition world_two_receivers :: "(nat, nat list) world" where
  "world_two_receivers = world0\<lparr>next_id := 2, done_locked := {1, 0},
     value_ref := (value_ref world0)(0 \<mapsto> Holds 0, 1 \<mapsto> Holds 0)\<rparr>"

subsection \<open>The size metric as the specification words it\<close>

text \<open>A record is live in a world when its \<^verbatim>\<open>need_abort\<close> answers false there. \<open>size_spec\<close>
  follows the specification: the length of the buffer plus the live senders minus the live
  receivers, wherever the records stand in their queue. \<open>stale\<close> counts the aborted records
  that stand behind a live one.\<close>

definition live :: "'w \<Rightarrow> ('w, 'f) task list \<Rightarrow> nat" where
  "live w ts = length (filter (\<lambda>t. \<not> fst (need_abort t w)) ts)"

definition stale :: "'w \<Rightarrow> ('w, 'f) task list \<Rightarrow> nat" where
  "stale w ts = length (filter (\<lambda>t. fst (need_abort t w))
                          (dropWhile (\<lambda>t. fst (need_abort t w)) ts))"

definition size_spec :: "('v, 'w) chan \<Rightarrow> 'w \<Rightarrow> int" where
  "size_spec c w =
     int (length (buffer c)) + int (live w (hanged_send_tasks c))
       - int (live w (hanged_recv_tasks c))"

definition uc_size_spec :: "('v, 'w) uchan \<Rightarrow> 'w \<Rightarrow> int" where
  "uc_size_spec c w =
     int (length (uc_buffer c)) - int (live w (uc_hanged_recv_tasks c))"

text \<open>The predicates of a queue are pure queries when calling them leaves the world as it
  is (the predicates of blocking calls and of stop tokens are; the gate of \<^verbatim>\<open>select\<close> is
  not).\<close>

definition pure_need_abort :: "('w, 'f) task list \<Rightarrow> bool" where
  "pure_need_abort ts \<longleftrightarrow> (\<forall>t \<in> set ts. \<forall>w. snd (need_abort t w) = w)"

text \<open>What the pruning loop of \<^verbatim>\<open>size()\<close> does to a queue, told without the queue: \<open>popped\<close> is
  the number of records it pops, that is, the records at the head that answer true, each
  asked in the world its predecessor left; \<open>asked\<close> is the world after the last answer. For
  the unbounded capacity the send queue is not pruned.\<close>

fun popped :: "('w, 'f) task list \<Rightarrow> 'w \<Rightarrow> nat" where
  "popped [] w = 0"
| "popped (t # ts) w =
     (if fst (need_abort t w) then Suc (popped ts (snd (need_abort t w))) else 0)"

fun asked :: "('w, 'f) task list \<Rightarrow> 'w \<Rightarrow> 'w" where
  "asked [] w = w"
| "asked (t # ts) w =
     (if fst (need_abort t w) then asked ts (snd (need_abort t w)) else snd (need_abort t w))"

definition popped_send :: "('v, 'w) chan \<Rightarrow> 'w \<Rightarrow> nat" where
  "popped_send c w =
     (if Cap c \<noteq> unbounded_capacity
      then popped (hanged_send_tasks c) (asked (hanged_recv_tasks c) w) else 0)"

definition asked_all :: "('v, 'w) chan \<Rightarrow> 'w \<Rightarrow> 'w" where
  "asked_all c w =
     (if Cap c \<noteq> unbounded_capacity
      then asked (hanged_send_tasks c) (asked (hanged_recv_tasks c) w)
      else asked (hanged_recv_tasks c) w)"

subsection \<open>Invariants of the channel state\<close>

text \<open>A value is buffered only while no receiver hangs and only in a channel with a
  buffer, and an unbounded channel has no hanged sender. Every operation keeps this (the
  lemmas \<open>chan_inv_\<close>...), so it holds in every state a channel object can be in.\<close>

definition chan_inv :: "('v, 'w) chan \<Rightarrow> bool" where
  "chan_inv c \<longleftrightarrow>
     (buffer c \<noteq> [] \<longrightarrow> hanged_recv_tasks c = [] \<and> Cap c \<noteq> 0) \<and>
     (Cap c = unbounded_capacity \<longrightarrow> hanged_send_tasks c = [])"

definition uc_inv :: "('v, 'w) uchan \<Rightarrow> bool" where
  "uc_inv u \<longleftrightarrow> (uc_buffer u \<noteq> [] \<longrightarrow> uc_hanged_recv_tasks u = [])"

subsection \<open>Waiters and the examples of select\<close>

text \<open>No waiter was registered between two states of a channel object when each queue of
  the later state is what is left of the queue of the earlier one after popping from its
  front.\<close>

definition no_new_waiters :: "('v, 'w) channel \<Rightarrow> ('v, 'w) channel \<Rightarrow> bool" where
  "no_new_waiters ch ch' =
     (case (ch, ch') of
        (Bounded c, Bounded c') \<Rightarrow>
          suffix (hanged_recv_tasks c') (hanged_recv_tasks c) \<and>
          suffix (hanged_send_tasks c') (hanged_send_tasks c)
      | (Unbounded u, Unbounded u') \<Rightarrow>
          suffix (uc_hanged_recv_tasks u') (uc_hanged_recv_tasks u)
      | _ \<Rightarrow> False)"

text \<open>A callback of a receive operation that logs what it was called with; a store with
  an empty rendezvous channel at every index but 1, where an unbounded channel buffers
  the value 7; and the store after that value was received by the operation whose
  callback logs under 20.\<close>

definition log_received ::
  "nat \<Rightarrow> bool \<Rightarrow> nat \<Rightarrow> (nat, nat list) world \<Rightarrow> (nat, nat list) world" where
  "log_received k r v w = w\<lparr>user := user w @ [if r then k + 1 else k, v]\<rparr>"

definition sys_two_chans :: "(nat, (nat, nat list) world) sys" where
  "sys_two_chans =
     \<lparr>chans = (\<lambda>_. Bounded (make_chan 0))(1 := Unbounded uchan_open_buffered),
      env = world0\<rparr>"

definition sys_received :: "(nat, (nat, nat list) world) sys" where
  "sys_received =
     \<lparr>chans = (\<lambda>_. Bounded (make_chan 0))
         (1 := Unbounded (uchan_open_buffered\<lparr>uc_buffer := []\<rparr>)),
      env = world0\<lparr>user := [21, 7]\<rparr>\<rparr>"

subsection \<open>Channels with aborted records, and a store of empty channels\<close>

text \<open>The predicate \<^verbatim>\<open>[] { return true; }\<close>; a rendezvous channel on which the blocking
  \<^verbatim>\<open>send(42)\<close> of call 0 and of call 1 hang, and the world of the two calls; a channel of
  capacity 1 with one aborted record behind a live one in each queue; a channel of capacity
  1 on which a receive and a send operation of one \<^verbatim>\<open>select\<close>, whose context is 0, have been
  registered, and the world of that call; a store of empty rendezvous channels; and an
  object of the caller that holds the length of the log.\<close>

definition always_abort :: "(nat, nat list) world \<Rightarrow> bool \<times> (nat, nat list) world" where
  "always_abort w = (True, w)"

definition chan_two_senders :: "(nat, (nat, nat list) world) chan" where
  "chan_two_senders =
     (make_chan 0)\<lparr>hanged_send_tasks :=
        [hanged_send_task RValue 0 42, hanged_send_task RValue 1 42]\<rparr>"

definition world_two_senders :: "(nat, nat list) world" where
  "world_two_senders = world0\<lparr>next_id := 2, done_locked := {1, 0},
     value_ref := (value_ref world0)(0 \<mapsto> Holds 42, 1 \<mapsto> Holds 42)\<rparr>"

definition chan_stale_both :: "(nat, (nat, nat list) world) chan" where
  "chan_stale_both =
     (make_chan 1)\<lparr>
       hanged_recv_tasks :=
         [\<lparr>need_abort = never_abort, execute = log_received 10\<rparr>,
          \<lparr>need_abort = always_abort, execute = log_received 20\<rparr>],
       hanged_send_tasks :=
         [send_sched_task (member_ref 1) never_abort (log_settled 30),
          send_sched_task (member_ref 2) always_abort (log_settled 40)]\<rparr>"

definition chan_shared_predicate :: "(nat, (nat, nat list) world) chan" where
  "chan_shared_predicate =
     (make_chan 1)\<lparr>
       hanged_recv_tasks := [\<lparr>need_abort = select_need_abort 0, execute = log_received 10\<rparr>],
       hanged_send_tasks :=
         [send_sched_task (member_ref 1) (select_need_abort 0) (log_settled 30)]\<rparr>"

definition world_one_select :: "(nat, nat list) world" where
  "world_one_select = world0\<lparr>next_id := 1, done_locked := {0}\<rparr>"

definition sys_empty :: "(nat, (nat, nat list) world) sys" where
  "sys_empty = \<lparr>chans = (\<lambda>_. Bounded (make_chan 0)), env = world0\<rparr>"

definition user_length :: "(nat, nat list) world \<Rightarrow> nat" where
  "user_length w = length (user w)"

section \<open>Properties\<close>

subsection \<open>The tests of the repository, replayed\<close>

text \<open>The sections of the test suite that need no second thread: a value sent into a
  channel of capacity 1 is received; the non-blocking operations of a rendezvous channel
  report \<open>exhausted\<close>; the size is -2 with two hanged receivers and 2 with two hanged
  senders; \<^verbatim>\<open>close\<close> releases a hanged receiver with \<open>closed\<close>.\<close>

lemma test_send_and_receive:
  "send debug_build RValue None 42 (make_chan 1) world0
     = Inr (Returned (ok, MovedFrom), (make_chan 1)\<lparr>buffer := [42]\<rparr>, world0) \<and>
   recv debug_build None 0 ((make_chan 1)\<lparr>buffer := [42]\<rparr>) world0
     = Some (Inr (Returned (ok, 42), make_chan 1, world0)) \<and>
   try_recv debug_build 0 (make_chan 1) world0
     = Some (Inr (exhausted, 0, make_chan 1, world0))"
  by (simp add: send_def recv_def try_recv_def try_send_priv_def try_recv_priv_def
        stop_requested_def make_chan_def world0_def debug_build_def assert_fails_def
        unbounded_capacity_def forwarded_def drain_hanged_send.simps)

lemma test_try_not_blocked:
  "try_recv debug_build 0 (make_chan 0) world0
     = Some (Inr (exhausted, 0, make_chan 0, world0)) \<and>
   try_send debug_build RValue 42 (make_chan 0) world0
     = Inr (exhausted, Holds 42, make_chan 0, world0)"
  by (simp add: try_recv_def try_send_def try_send_priv_def try_recv_priv_def
        make_chan_def world0_def debug_build_def assert_fails_def unbounded_capacity_def)

lemma test_size_with_hanged_calls:
  "fst (size_chan chan_two_receivers world_two_receivers) = - 2 \<and>
   send debug_build RValue None 42 (make_chan 0) world0
     = Inr (Suspended 0, (make_chan 0)\<lparr>hanged_send_tasks := [hanged_send_task RValue 0 42]\<rparr>,
         world0\<lparr>next_id := 1, done_locked := {0},
           value_ref := (value_ref world0)(0 \<mapsto> Holds 42)\<rparr>) \<and>
   fst (size_chan
          ((make_chan 0)\<lparr>hanged_send_tasks :=
             [hanged_send_task RValue 0 42, hanged_send_task RValue 1 42]\<rparr>)
          (world0\<lparr>next_id := 2, done_locked := {1, 0}\<rparr>)) = 2"
  by (simp add: size_chan_def size_result_def send_def try_send_priv_def stop_requested_def
        chan_two_receivers_def world_two_receivers_def hanged_recv_task_def
        hanged_send_task_def make_chan_def world0_def debug_build_def assert_fails_def
        unbounded_capacity_def)

lemma test_close_releases_hanged_recv:
  "close debug_build ((make_chan 0)\<lparr>hanged_recv_tasks := [hanged_recv_task 0]\<rparr>)
       (world0\<lparr>next_id := 1, done_locked := {0}\<rparr>)
     = ((make_chan 0)\<lparr>is_closed := True\<rparr>,
        world0\<lparr>next_id := 1, done_locked := {}, stopped := {0},
          ec_ref := (ec_ref world0)(0 \<mapsto> closed)\<rparr>)"
  by (simp add: close_def hanged_recv_task_def make_chan_def world0_def debug_build_def
        unbounded_capacity_def)

subsection \<open>Cancellation before the operation starts\<close>

text \<open>
  C7. If the stop token passed to a blocking \<^verbatim>\<open>recv\<close> or \<^verbatim>\<open>send\<close> is already stop-requested
  when the operation starts, the operation returns \<open>canceled\<close> and transfers nothing: the
  receiver's \<^verbatim>\<open>value\<close> is what it was, the sender's value is still held by the caller, and
  the channel (buffer and both waiter queues) and the world are the ones given. This holds
  for \<^verbatim>\<open>bounded_channel\<close> of every capacity and for the class \<^verbatim>\<open>unbounded_channel\<close>.
\<close>

theorem canceled_before_start:
  assumes "stop_requested token w"
  shows "recv b token v c w = Some (Inr (Returned (canceled, v), c, w)) \<and>
         send b U token v c w = Inr (Returned (canceled, Holds v), c, w) \<and>
         uc_recv token v u w = (Returned (canceled, v), u, w) \<and>
         uc_send b U token v u w = Inr ((canceled, Holds v), u, w)"
  using assms by (simp add: recv_def send_def uc_recv_def uc_send_def)

theorem canceled_before_start_witness:
  "stop_requested (Some 0) world_stopped \<and>
   recv debug_build (Some 0) 9 chan_full_one_sender world_stopped
     = Some (Inr (Returned (canceled, 9), chan_full_one_sender, world_stopped)) \<and>
   send debug_build RValue (Some 0) 9 chan_full_one_sender world_stopped
     = Inr (Returned (canceled, Holds 9), chan_full_one_sender, world_stopped)"
proof -
  have h: "stop_requested (Some 0) world_stopped"
    by (simp add: stop_requested_def world_stopped_def world0_def)
  show ?thesis
    using h canceled_before_start [OF h, where b = debug_build and v = 9
        and c = chan_full_one_sender and U = RValue]
    by simp
qed

text \<open>
  C9. On a channel that is already closed, a blocking \<^verbatim>\<open>recv\<close> or \<^verbatim>\<open>send\<close> called with a token
  that is already stop-requested returns \<open>canceled\<close>, not \<open>closed\<close>: the token is checked
  before the closed flag, and \<open>closed\<close> is the answer only when the token is not
  stop-requested.
\<close>

theorem canceled_wins_over_closed:
  assumes "is_closed c" and "uc_is_closed u"
  shows "recv b token v c w
           = Some (Inr (Returned (if stop_requested token w then canceled else closed, v), c, w)) \<and>
         send b U token v c w
           = Inr (Returned (if stop_requested token w then canceled else closed, Holds v), c, w) \<and>
         uc_recv token v u w
           = (Returned (if stop_requested token w then canceled else closed, v), u, w) \<and>
         uc_send b U token v u w
           = Inr ((if stop_requested token w then canceled else closed, Holds v), u, w)"
  using assms by (simp add: recv_def send_def uc_recv_def uc_send_def)

theorem canceled_wins_over_closed_witness:
  "is_closed chan_closed_buffered \<and> uc_is_closed uchan_closed_buffered \<and>
   stop_requested (Some 0) world_stopped \<and>
   recv debug_build (Some 0) 9 chan_closed_buffered world_stopped
     = Some (Inr (Returned (canceled, 9), chan_closed_buffered, world_stopped)) \<and>
   send debug_build RValue (Some 0) 9 chan_closed_buffered world_stopped
     = Inr (Returned (canceled, Holds 9), chan_closed_buffered, world_stopped) \<and>
   uc_recv (Some 0) 9 uchan_closed_buffered world_stopped
     = (Returned (canceled, 9), uchan_closed_buffered, world_stopped) \<and>
   uc_send debug_build RValue (Some 0) 9 uchan_closed_buffered world_stopped
     = Inr ((canceled, Holds 9), uchan_closed_buffered, world_stopped)"
proof -
  have h: "stop_requested (Some 0) world_stopped"
    by (simp add: stop_requested_def world_stopped_def world0_def)
  have c: "is_closed chan_closed_buffered"
    by (simp add: chan_closed_buffered_def)
  have u: "uc_is_closed uchan_closed_buffered"
    by (simp add: uchan_closed_buffered_def)
  show ?thesis
    using h c u
      canceled_wins_over_closed [OF c u, where b = debug_build and v = 9 and U = RValue
        and token = "Some 0" and w = world_stopped]
    by simp
qed

subsection \<open>A failed try\_send leaves the value with the caller\<close>

text \<open>
  C10. Whenever \<^verbatim>\<open>try_send\<close> returns a code other than \<open>ok\<close>, the code is \<open>closed\<close> or
  \<open>exhausted\<close>, the buffer is unchanged and the argument has not been moved from, so the
  caller may send the same value again.
\<close>

theorem try_send_failure_keeps_value:
  assumes "try_send b U v c w = Inr (ec, s, c', w')" and "ec \<noteq> ok"
  shows "(ec = closed \<or> ec = exhausted) \<and> buffer c' = buffer c \<and> s = Holds v"
  using assms
  by (auto simp: try_send_def try_send_priv_def Let_def
           split: if_splits sum.splits prod.splits bool.splits)

theorem try_send_failure_keeps_value_witness:
  "try_send debug_build RValue 3 chan_full_one_sender world_one_call
     = Inr (exhausted, Holds 3, chan_full_one_sender, world_one_call) \<and>
   exhausted \<noteq> ok \<and>
   buffer chan_full_one_sender = buffer chan_full_one_sender \<and> Holds (3::nat) = Holds 3"
proof -
  have r: "try_send debug_build RValue 3 chan_full_one_sender world_one_call
             = Inr (exhausted, Holds 3, chan_full_one_sender, world_one_call)"
    by (simp add: try_send_def try_send_priv_def chan_full_one_sender_def make_chan_def
          debug_build_def assert_fails_def unbounded_capacity_def)
  have n: "exhausted \<noteq> ok" by simp
  show ?thesis
    using r n try_send_failure_keeps_value [OF r n] by simp
qed

subsection \<open>close is idempotent\<close>

text \<open>
  C8. Calling \<^verbatim>\<open>close()\<close> a second time right after the first changes nothing: the second
  call returns the channel and the world that the first call left, so no callback runs a
  second time; after the first call the channel is closed and the queue of hanged
  receivers is empty, and so is the queue of hanged senders (which an unbounded channel
  never fills and \<^verbatim>\<open>close\<close> does not touch there).
\<close>

theorem close_twice:
  "close b (fst (close b c w)) (snd (close b c w)) = close b c w \<and>
   is_closed (fst (close b c w)) \<and>
   hanged_recv_tasks (fst (close b c w)) = [] \<and>
   ((Cap c = unbounded_capacity \<longrightarrow> hanged_send_tasks c = [])
      \<longrightarrow> hanged_send_tasks (fst (close b c w)) = []) \<and>
   uc_close b (fst (uc_close b u w)) (snd (uc_close b u w)) = uc_close b u w \<and>
   uc_is_closed (fst (uc_close b u w)) \<and>
   uc_hanged_recv_tasks (fst (uc_close b u w)) = []"
  by (simp add: close_def uc_close_def Let_def)

theorem close_twice_witness:
  "Cap chan_full_one_sender \<noteq> unbounded_capacity \<and>
   ec_ref (snd (close debug_build chan_full_one_sender world_one_call)) 0 = Some closed \<and>
   close debug_build (fst (close debug_build chan_full_one_sender world_one_call))
         (snd (close debug_build chan_full_one_sender world_one_call))
     = close debug_build chan_full_one_sender world_one_call \<and>
   hanged_send_tasks (fst (close debug_build chan_full_one_sender world_one_call)) = []"
proof -
  have h: "Cap chan_full_one_sender \<noteq> unbounded_capacity"
    by (simp add: chan_full_one_sender_def make_chan_def unbounded_capacity_def)
  have e: "ec_ref (snd (close debug_build chan_full_one_sender world_one_call)) 0 = Some closed"
    by (simp add: close_def chan_full_one_sender_def make_chan_def unbounded_capacity_def
          hanged_send_task_def world_one_call_def world0_def debug_build_def)
  show ?thesis
    using h e close_twice [where b = debug_build and c = chan_full_one_sender and w = world_one_call]
    by simp
qed

subsection \<open>The invariants are kept by every operation\<close>

lemma send_to_hanged_recv_False:
  "send_to_hanged_recv b v buf ts w = Inr (False, rs, w') \<Longrightarrow> rs = []"
  by (induction ts arbitrary: w) (auto split: if_splits prod.splits)

lemma send_to_hanged_recv_returns:
  "NDEBUG b \<or> (buf \<noteq> [] \<longrightarrow> ts = []) \<Longrightarrow>
     \<exists>r rs w'. send_to_hanged_recv b v buf ts w = Inr (r, rs, w')"
  by (induction ts arbitrary: w) (auto simp: assert_fails_def split: prod.splits)

lemma pop_aborted_Nil: "ts = [] \<Longrightarrow> pop_aborted ts w = ([], w)"
  by simp

lemma chan_inv_make_chan: "chan_inv (make_chan n)"
  by (simp add: chan_inv_def make_chan_def)

lemma chan_inv_size:
  "chan_inv c \<Longrightarrow> size_chan c w = (n, c', w') \<Longrightarrow> chan_inv c'"
  by (cases "buffer c = []")
     (auto simp: chan_inv_def size_chan_def split: prod.splits if_splits)

lemma chan_inv_close:
  "chan_inv c \<Longrightarrow> close b c w = (c', w') \<Longrightarrow> chan_inv c'"
  by (auto simp: chan_inv_def close_def Let_def split: if_splits)

lemma chan_inv_try_send_priv:
  assumes "chan_inv c" and "try_send_priv b U v c w = Inr (r, s, c', w')"
  shows "chan_inv c'"
proof (cases "send_to_hanged_recv b v (buffer c) (hanged_recv_tasks c) w")
  case (Inl e)
  with assms(2) show ?thesis
    by (simp add: try_send_priv_def split: if_splits)
next
  case (Inr x)
  obtain r0 rs w0 where x: "x = (r0, rs, w0)" by (cases x)
  show ?thesis
  proof (cases r0)
    case True
    have "buffer c = []"
    proof (rule ccontr)
      assume "buffer c \<noteq> []"
      with assms(1) have "hanged_recv_tasks c = []" by (simp add: chan_inv_def)
      with Inr x True show False by simp
    qed
    with assms Inr x True show ?thesis
      by (auto simp: try_send_priv_def chan_inv_def split: if_splits)
  next
    case False
    with Inr x have "rs = []" using send_to_hanged_recv_False by fastforce
    with assms Inr x False show ?thesis
      by (auto simp: try_send_priv_def chan_inv_def Let_def split: if_splits)
  qed
qed

lemma chan_inv_try_send:
  "chan_inv c \<Longrightarrow> try_send b U v c w = Inr (ec, s, c', w') \<Longrightarrow> chan_inv c'"
  by (auto simp: try_send_def split: if_splits sum.splits prod.splits
           dest: chan_inv_try_send_priv)

lemma try_send_priv_unbounded:
  "Cap c = unbounded_capacity \<Longrightarrow> try_send_priv b U v c w = Inr (r, s, c', w')
     \<Longrightarrow> r \<and> Cap c' = unbounded_capacity \<and> hanged_send_tasks c' = hanged_send_tasks c"
  by (auto simp: try_send_priv_def Let_def unbounded_capacity_def
           split: if_splits sum.splits prod.splits bool.splits)

lemma chan_inv_send:
  assumes "chan_inv c" and "send b U token v c w = Inr (r, c', w')"
  shows "chan_inv c'"
proof (cases "stop_requested token w \<or> is_closed c")
  case True
  with assms show ?thesis by (auto simp: send_def split: if_splits)
next
  case False
  then obtain r0 s0 c0 w0 where p: "try_send_priv b U v c w = Inr (r0, s0, c0, w0)"
    using assms(2) by (auto simp: send_def split: sum.splits)
  have i0: "chan_inv c0" using assms(1) p by (rule chan_inv_try_send_priv)
  have cap: "Cap c0 = Cap c"
    using p by (auto simp: try_send_priv_def Let_def split: if_splits sum.splits prod.splits bool.splits)
  show ?thesis
    using assms(2) False p i0 cap
    by (auto simp: send_def chan_inv_def Let_def split: if_splits)
qed

lemma chan_inv_send_sched:
  assumes "chan_inv c" and "send_sched b U v na f c w = Inr (c', w')"
  shows "chan_inv c'"
proof (cases "is_closed c")
  case True
  with assms show ?thesis by (simp add: send_sched_def Let_def)
next
  case False
  show ?thesis
  proof (cases "Cap c = unbounded_capacity \<or> Cap c = 0")
    case True
    then obtain r0 s0 c0 w0 where p: "try_send_priv b U (v w) c w = Inr (r0, s0, c0, w0)"
      using assms(2) \<open>\<not> is_closed c\<close>
      by (auto simp: send_sched_def Let_def split: sum.splits if_splits)
    have i0: "chan_inv c0" using assms(1) p by (rule chan_inv_try_send_priv)
    have cap: "Cap c0 = Cap c"
      using p by (auto simp: try_send_priv_def Let_def split: if_splits sum.splits prod.splits bool.splits)
    show ?thesis
      using assms(2) \<open>\<not> is_closed c\<close> True p i0 cap
      by (auto simp: send_sched_def chan_inv_def Let_def unbounded_capacity_def split: if_splits)
  next
    case False
    with assms \<open>\<not> is_closed c\<close> show ?thesis
      by (auto simp: send_sched_def chan_inv_def Let_def)
  qed
qed


lemma drain_hanged_send_frame:
  assumes "drain_hanged_send b c w = Some (Inr (c', w'))"
  shows "hanged_recv_tasks c' = hanged_recv_tasks c \<and> Cap c' = Cap c \<and>
         is_closed c' = is_closed c"
proof -
  have "case r of Inl e \<Rightarrow> True
           | Inr (c', w') \<Rightarrow> hanged_recv_tasks c' = hanged_recv_tasks c \<and> Cap c' = Cap c \<and>
               is_closed c' = is_closed c"
    if "drain_hanged_send b c w = Some r" for r
    using that
  proof (induction b c w r rule: drain_hanged_send.raw_induct [rotated 1, consumes 1])
    case (1 drain b c w r)
    show ?case
    proof (cases "hanged_send_tasks c")
      case Nil
      with 1(2) show ?thesis by auto
    next
      case (Cons t ts)
      show ?thesis
      proof (cases "assert_fails b (length (buffer c) < Cap c)")
        case True
        with 1(2) Cons show ?thesis by auto
      next
        case False
        obtain a w1 where na: "need_abort t w = (a, w1)" by (cases "need_abort t w")
        show ?thesis
        proof (cases a)
          case True
          with 1(2) Cons False na
          have "drain b (c\<lparr>hanged_send_tasks := ts\<rparr>) w1 = Some r" by simp
          from 1(1) [OF this] show ?thesis by (auto split: sum.splits)
        next
          case nf: False
          obtain x w2 where ex: "execute t True (T_default b) w1 = (x, w2)"
            by (cases "execute t True (T_default b) w1")
          with 1(2) Cons False na nf
          have "drain b (c\<lparr>buffer := buffer c @ [x]\<rparr>) w2 = Some r" by simp
          from 1(1) [OF this] show ?thesis by (auto split: sum.splits)
        qed
      qed
    qed
  qed
  from this [OF assms] show ?thesis by simp
qed

lemma recv_from_hanged_send_frame:
  "recv_from_hanged_send b n v buf ts w = Inr (r, v', ss, w') \<Longrightarrow> ts = [] \<Longrightarrow> ss = []"
  by simp

lemma try_recv_priv_inv:
  assumes "chan_inv c" and "try_recv_priv b v c w = Some (Inr (r, v', c', w'))"
  shows "chan_inv c' \<and> Cap c' = Cap c \<and> hanged_recv_tasks c' = hanged_recv_tasks c \<and>
         (\<not> r \<longrightarrow> buffer c' = [])"
proof (cases "Cap c \<noteq> 0 \<and> buffer c \<noteq> []")
  case True
  then have rq: "hanged_recv_tasks c = []" using assms(1) by (simp add: chan_inv_def)
  show ?thesis
  proof (cases "Cap c = unbounded_capacity")
    case u: True
    with assms True show ?thesis
      by (auto simp: try_recv_priv_def chan_inv_def Let_def split: if_splits)
  next
    case nu: False
    from assms(2) True nu obtain c2 w2 where
      d: "drain_hanged_send b (c\<lparr>buffer := tl (buffer c)\<rparr>) w = Some (Inr (c2, w2))"
      and r: "r" "c' = c2"
      by (auto simp: try_recv_priv_def Let_def split: if_splits option.splits sum.splits)
    from drain_hanged_send_frame [OF d] rq True nu r show ?thesis
      by (simp add: chan_inv_def)
  qed
next
  case False
  then have be: "buffer c = []" using assms(1) by (auto simp: chan_inv_def)
  with assms False show ?thesis
    by (auto simp: try_recv_priv_def chan_inv_def Let_def
             split: if_splits sum.splits prod.splits)
qed

lemma chan_inv_try_recv:
  "chan_inv c \<Longrightarrow> try_recv b v c w = Some (Inr (ec, v', c', w')) \<Longrightarrow> chan_inv c'"
  by (auto simp: try_recv_def split: if_splits option.splits sum.splits prod.splits
           dest: try_recv_priv_inv)

lemma chan_inv_recv:
  assumes "chan_inv c" and "recv b token v c w = Some (Inr (r, c', w'))"
  shows "chan_inv c'"
proof (cases "stop_requested token w \<or> is_closed c")
  case True
  with assms show ?thesis by (auto simp: recv_def split: if_splits)
next
  case False
  then obtain r0 v0 c0 w0 where p: "try_recv_priv b v c w = Some (Inr (r0, v0, c0, w0))"
    using assms(2) by (auto simp: recv_def split: option.splits sum.splits)
  from try_recv_priv_inv [OF assms(1) p] assms(2) False p show ?thesis
    by (auto simp: recv_def chan_inv_def Let_def split: if_splits)
qed

lemma chan_inv_recv_sched:
  assumes "chan_inv c" and "recv_sched b na f c w = Some (Inr (c', w'))"
  shows "chan_inv c'"
proof (cases "is_closed c")
  case True
  with assms show ?thesis by (auto simp: recv_sched_def)
next
  case False
  then obtain r0 v0 c0 w0 where
    p: "try_recv_priv b (T_default b) c w = Some (Inr (r0, v0, c0, w0))"
    using assms(2) by (auto simp: recv_sched_def split: option.splits sum.splits)
  from try_recv_priv_inv [OF assms(1) p] assms(2) False p show ?thesis
    by (auto simp: recv_sched_def chan_inv_def split: if_splits)
qed

lemma uc_inv_make_chan: "uc_inv uc_make_chan"
  by (simp add: uc_inv_def uc_make_chan_def)

lemma uc_inv_size: "uc_inv u \<Longrightarrow> uc_size u w = (n, u', w') \<Longrightarrow> uc_inv u'"
  by (cases "uc_buffer u = []") (auto simp: uc_inv_def uc_size_def split: prod.splits)

lemma uc_inv_close: "uc_close b u w = (u', w') \<Longrightarrow> uc_inv u'"
  by (auto simp: uc_inv_def uc_close_def)

lemma uc_inv_try_send_priv:
  assumes "uc_inv u" and "uc_try_send_priv b U v u w = Inr (r, s, u', w')"
  shows "uc_inv u'"
proof (cases "send_to_hanged_recv b v (uc_buffer u) (uc_hanged_recv_tasks u) w")
  case (Inl e)
  with assms(2) show ?thesis
    by (simp add: uc_try_send_priv_def split: if_splits)
next
  case (Inr x)
  obtain r0 rs w0 where x: "x = (r0, rs, w0)" by (cases x)
  show ?thesis
  proof (cases r0)
    case True
    have "uc_buffer u = []"
    proof (rule ccontr)
      assume "uc_buffer u \<noteq> []"
      with assms(1) have "uc_hanged_recv_tasks u = []" by (simp add: uc_inv_def)
      with Inr x True show False by simp
    qed
    with assms Inr x True show ?thesis
      by (auto simp: uc_try_send_priv_def uc_inv_def split: if_splits)
  next
    case False
    with Inr x have "rs = []" using send_to_hanged_recv_False by fastforce
    with assms Inr x False show ?thesis
      by (auto simp: uc_try_send_priv_def uc_inv_def split: if_splits)
  qed
qed

lemma uc_inv_try_send:
  "uc_inv u \<Longrightarrow> uc_try_send b U v u w = Inr (ec, s, u', w') \<Longrightarrow> uc_inv u'"
  by (auto simp: uc_try_send_def split: if_splits sum.splits prod.splits
           dest: uc_inv_try_send_priv)

lemma uc_inv_send:
  "uc_inv u \<Longrightarrow> uc_send b U token v u w = Inr (r, u', w') \<Longrightarrow> uc_inv u'"
  by (auto simp: uc_send_def split: if_splits sum.splits prod.splits
           dest: uc_inv_try_send_priv)

lemma uc_inv_send_sched:
  "uc_inv u \<Longrightarrow> uc_send_sched b U v na f u w = Inr (u', w') \<Longrightarrow> uc_inv u'"
  by (auto simp: uc_send_sched_def split: if_splits sum.splits prod.splits
           dest: uc_inv_try_send_priv)

lemma uc_inv_try_recv:
  "uc_inv u \<Longrightarrow> uc_try_recv v u = (ec, v', u') \<Longrightarrow> uc_inv u'"
  by (auto simp: uc_try_recv_def uc_try_recv_priv_def uc_inv_def split: if_splits)

lemma uc_inv_recv:
  "uc_inv u \<Longrightarrow> uc_recv token v u w = (r, u', w') \<Longrightarrow> uc_inv u'"
  by (auto simp: uc_recv_def uc_try_recv_priv_def uc_inv_def Let_def split: if_splits)

lemma uc_inv_recv_sched:
  "uc_inv u \<Longrightarrow> uc_recv_sched b na f u w = (u', w') \<Longrightarrow> uc_inv u'"
  by (auto simp: uc_recv_sched_def uc_try_recv_priv_def uc_inv_def Let_def split: if_splits)



subsection \<open>try\_send on an unbounded channel\<close>

lemma try_send_priv_unbounded_returns:
  assumes "Cap c = unbounded_capacity" and "\<not> is_closed c" and "NDEBUG b \<or> chan_inv c"
  shows "\<exists>c' w'. try_send_priv b U v c w = Inr (True, forwarded U v, c', w')"
proof -
  from assms(3) have "NDEBUG b \<or> (buffer c \<noteq> [] \<longrightarrow> hanged_recv_tasks c = [])"
    by (auto simp: chan_inv_def)
  from send_to_hanged_recv_returns [OF this]
  obtain r rs w' where
    l: "send_to_hanged_recv b v (buffer c) (hanged_recv_tasks c) w = Inr (r, rs, w')"
    by blast
  with assms(1,2) show ?thesis
    by (cases r) (simp_all add: try_send_priv_def assert_fails_def unbounded_capacity_def)
qed

lemma uc_try_send_priv_returns:
  assumes "\<not> uc_is_closed u" and "NDEBUG b \<or> uc_inv u"
  shows "\<exists>u' w'. uc_try_send_priv b U v u w = Inr (True, forwarded U v, u', w')"
proof -
  from assms(2) have "NDEBUG b \<or> (uc_buffer u \<noteq> [] \<longrightarrow> uc_hanged_recv_tasks u = [])"
    by (auto simp: uc_inv_def)
  from send_to_hanged_recv_returns [OF this]
  obtain r rs w' where
    l: "send_to_hanged_recv b v (uc_buffer u) (uc_hanged_recv_tasks u) w = Inr (r, rs, w')"
    by blast
  with assms(1) show ?thesis
    by (cases r) (simp_all add: uc_try_send_priv_def assert_fails_def)
qed

text \<open>
  C6. For the unbounded channel (\<^verbatim>\<open>bounded_channel<T, unbounded_capacity>\<close> and the class
  \<^verbatim>\<open>unbounded_channel<T>\<close>), \<^verbatim>\<open>try_send\<close> never returns \<open>exhausted\<close>; it returns \<open>closed\<close> once the
  channel has been closed, and \<open>ok\<close> (taking the value) whenever the channel is open. The
  last part is about calls that return: in a build with assertions it needs the state
  invariant, which every reachable state has.
\<close>

theorem unbounded_try_send:
  assumes "Cap c = unbounded_capacity"
  shows "(\<forall>s c' w'. try_send b U v c w \<noteq> Inr (exhausted, s, c', w')) \<and>
         (is_closed c \<longrightarrow> try_send b U v c w = Inr (closed, Holds v, c, w)) \<and>
         (\<not> is_closed c \<and> (NDEBUG b \<or> chan_inv c) \<longrightarrow>
            (\<exists>c' w'. try_send b U v c w = Inr (ok, forwarded U v, c', w'))) \<and>
         (\<forall>s u' w'. uc_try_send b U v u w \<noteq> Inr (exhausted, s, u', w')) \<and>
         (uc_is_closed u \<longrightarrow> uc_try_send b U v u w = Inr (closed, Holds v, u, w)) \<and>
         (\<not> uc_is_closed u \<and> (NDEBUG b \<or> uc_inv u) \<longrightarrow>
            (\<exists>u' w'. uc_try_send b U v u w = Inr (ok, forwarded U v, u', w')))"
proof (intro conjI impI)
  show "\<forall>s c' w'. try_send b U v c w \<noteq> Inr (exhausted, s, c', w')"
    using assms by (auto simp: try_send_def split: if_splits sum.splits)
  show "try_send b U v c w = Inr (closed, Holds v, c, w)" if "is_closed c"
    using that by (simp add: try_send_def)
  show "\<exists>c' w'. try_send b U v c w = Inr (ok, forwarded U v, c', w')"
    if "\<not> is_closed c \<and> (NDEBUG b \<or> chan_inv c)"
    using try_send_priv_unbounded_returns [OF assms, of b U v w] that assms
    by (auto simp: try_send_def)
  show "\<forall>s u' w'. uc_try_send b U v u w \<noteq> Inr (exhausted, s, u', w')"
    by (auto simp: uc_try_send_def split: if_splits sum.splits)
  show "uc_try_send b U v u w = Inr (closed, Holds v, u, w)" if "uc_is_closed u"
    using that by (simp add: uc_try_send_def)
  show "\<exists>u' w'. uc_try_send b U v u w = Inr (ok, forwarded U v, u', w')"
    if "\<not> uc_is_closed u \<and> (NDEBUG b \<or> uc_inv u)"
    using uc_try_send_priv_returns [of u b U v w] that
    by (auto simp: uc_try_send_def)
qed

theorem unbounded_try_send_witness:
  "Cap chan_unbounded_buffered = unbounded_capacity \<and>
   \<not> is_closed chan_unbounded_buffered \<and> chan_inv chan_unbounded_buffered \<and>
   \<not> uc_is_closed uchan_open_buffered \<and> uc_inv uchan_open_buffered \<and>
   try_send debug_build RValue 8 chan_unbounded_buffered world0
     = Inr (ok, MovedFrom, chan_unbounded_buffered\<lparr>buffer := [7, 8]\<rparr>, world0) \<and>
   uc_try_send debug_build RValue 8 uchan_open_buffered world0
     = Inr (ok, MovedFrom, uchan_open_buffered\<lparr>uc_buffer := [7, 8]\<rparr>, world0)"
proof -
  have h: "Cap chan_unbounded_buffered = unbounded_capacity"
    by (simp add: chan_unbounded_buffered_def make_chan_def)
  have o: "\<not> is_closed chan_unbounded_buffered" "chan_inv chan_unbounded_buffered"
    "\<not> uc_is_closed uchan_open_buffered" "uc_inv uchan_open_buffered"
    by (simp_all add: chan_unbounded_buffered_def make_chan_def chan_inv_def
          unbounded_capacity_def uchan_open_buffered_def uc_inv_def)
  have e: "try_send debug_build RValue 8 chan_unbounded_buffered world0
     = Inr (ok, MovedFrom, chan_unbounded_buffered\<lparr>buffer := [7, 8]\<rparr>, world0)"
    "uc_try_send debug_build RValue 8 uchan_open_buffered world0
     = Inr (ok, MovedFrom, uchan_open_buffered\<lparr>uc_buffer := [7, 8]\<rparr>, world0)"
    by (simp_all add: try_send_def try_send_priv_def chan_unbounded_buffered_def make_chan_def
          assert_fails_def debug_build_def forwarded_def uc_try_send_def uc_try_send_priv_def
          uchan_open_buffered_def Let_def unbounded_capacity_def)
  show ?thesis
    using h o e unbounded_try_send [OF h, where b = debug_build and U = RValue and v = 8
        and w = world0 and u = uchan_open_buffered]
    by simp
qed

subsection \<open>Receiving from a closed channel\<close>

text \<open>
  C3, as stated, fails. A channel of capacity 2 takes the value 7 and is closed; the value
  is still in the buffer, and yet \<^verbatim>\<open>try_recv\<close> and \<^verbatim>\<open>recv\<close> return \<open>closed\<close> and not \<open>ok\<close> with 7.
  The class \<^verbatim>\<open>unbounded_channel\<close> does the same.
\<close>

theorem closed_channel_drains_counterexample:
  "try_send debug_build RValue 7 (make_chan 2) world0
     = Inr (ok, MovedFrom, chan_open_buffered, world0) \<and>
   close debug_build chan_open_buffered world0 = (chan_closed_buffered, world0) \<and>
   buffer chan_closed_buffered = [7] \<and>
   try_recv debug_build 0 chan_closed_buffered world0
     = Some (Inr (closed, 0, chan_closed_buffered, world0)) \<and>
   recv debug_build None 0 chan_closed_buffered world0
     = Some (Inr (Returned (closed, 0), chan_closed_buffered, world0)) \<and>
   uc_try_send debug_build RValue 7 uc_make_chan world0
     = Inr (ok, MovedFrom, uchan_open_buffered, world0) \<and>
   uc_close debug_build uchan_open_buffered world0 = (uchan_closed_buffered, world0) \<and>
   uc_try_recv 0 uchan_closed_buffered = (closed, 0, uchan_closed_buffered) \<and>
   uc_recv None 0 uchan_closed_buffered world0
     = (Returned (closed, 0), uchan_closed_buffered, world0)"
  by (simp add: world0_def debug_build_def release_build_def make_chan_def
        unbounded_capacity_def assert_fails_def forwarded_def uc_make_chan_def chan_open_buffered_def
        chan_closed_buffered_def uchan_open_buffered_def uchan_closed_buffered_def try_send_def try_send_priv_def close_def try_recv_def recv_def
        stop_requested_def uc_try_send_def uc_try_send_priv_def uc_close_def uc_try_recv_def
        uc_recv_def)

text \<open>
  C3, amended. After \<^verbatim>\<open>close()\<close> the buffer keeps the values it held, and every further
  \<^verbatim>\<open>try_recv\<close>, and every further \<^verbatim>\<open>recv\<close> whose token is not stop-requested, returns \<open>closed\<close> at
  once, whatever the buffer holds: the out-parameter, the channel and the world are left
  as they are, so the buffered values are never delivered. Every further \<^verbatim>\<open>try_send\<close>, and
  every further \<^verbatim>\<open>send\<close> whose token is not stop-requested, returns \<open>closed\<close> and keeps its
  value.
\<close>

theorem closed_channel_refuses:
  assumes "c = fst (close b c0 w0)" and "u = fst (uc_close b u0 w0)"
    and "\<not> stop_requested token w"
  shows "buffer c = buffer c0 \<and> uc_buffer u = uc_buffer u0 \<and>
     try_recv b v c w = Some (Inr (closed, v, c, w)) \<and>
     recv b token v c w = Some (Inr (Returned (closed, v), c, w)) \<and>
     try_send b U x c w = Inr (closed, Holds x, c, w) \<and>
     send b U token x c w = Inr (Returned (closed, Holds x), c, w) \<and>
     uc_try_recv v u = (closed, v, u) \<and>
     uc_recv token v u w = (Returned (closed, v), u, w) \<and>
     uc_try_send b U x u w = Inr (closed, Holds x, u, w) \<and>
     uc_send b U token x u w = Inr ((closed, Holds x), u, w)"
  using assms
  by (simp add: close_def uc_close_def try_recv_def recv_def try_send_def send_def
        uc_try_recv_def uc_recv_def uc_try_send_def uc_send_def Let_def)

theorem closed_channel_refuses_witness:
  "chan_closed_buffered = fst (close debug_build chan_open_buffered world0) \<and>
   uchan_closed_buffered = fst (uc_close debug_build uchan_open_buffered world0) \<and>
   \<not> stop_requested None world0 \<and>
   buffer chan_closed_buffered = buffer chan_open_buffered \<and>
   try_recv debug_build 0 chan_closed_buffered world0
     = Some (Inr (closed, 0, chan_closed_buffered, world0)) \<and>
   try_send debug_build RValue 8 chan_closed_buffered world0
     = Inr (closed, Holds 8, chan_closed_buffered, world0) \<and>
   uc_try_recv 0 uchan_closed_buffered = (closed, 0, uchan_closed_buffered)"
proof -
  have c: "chan_closed_buffered = fst (close debug_build chan_open_buffered world0)"
    by (simp add: debug_build_def make_chan_def unbounded_capacity_def chan_open_buffered_def
          chan_closed_buffered_def close_def)
  have u: "uchan_closed_buffered = fst (uc_close debug_build uchan_open_buffered world0)"
    by (simp add: debug_build_def uchan_open_buffered_def uchan_closed_buffered_def uc_close_def)
  have t: "\<not> stop_requested None world0"
    by (simp add: stop_requested_def)
  show ?thesis
    using c u t closed_channel_refuses [OF c u t, where v = 0 and U = RValue and x = 8]
    by simp
qed

subsection \<open>send\_sched on a bounded channel with room\<close>

text \<open>For a capacity other than 0 and \<^verbatim>\<open>unbounded_capacity\<close> neither branch of the
  \<^verbatim>\<open>if constexpr\<close> chain is compiled, and an open channel registers the waiter without a
  look at the buffer.\<close>

lemma send_sched_bounded_registers:
  assumes "0 < Cap c" and "Cap c \<noteq> unbounded_capacity" and "\<not> is_closed c"
  shows "send_sched b U obj na on_settled c w =
           Inr (c\<lparr>hanged_send_tasks := hanged_send_tasks c @
                   [send_sched_task obj na on_settled]\<rparr>, w)"
  using assms by (simp add: send_sched_def)

text \<open>The registered task reads the caller's object when it is executed, not when it is
  registered: the object held 0 at the call and holds 3 when a receiver arrives.\<close>

lemma send_sched_hands_over_at_execution:
  "send_sched debug_build LValue user_length never_abort (log_settled 0) (make_chan 0) world0
     = Inr ((make_chan 0)\<lparr>hanged_send_tasks :=
              [send_sched_task user_length never_abort (log_settled 0)]\<rparr>, world0) \<and>
   user_length world0 = 0 \<and>
   try_recv debug_build 0
       ((make_chan 0)\<lparr>hanged_send_tasks :=
              [send_sched_task user_length never_abort (log_settled 0)]\<rparr>)
       (world0\<lparr>user := [5, 5, 5]\<rparr>)
     = Some (Inr (ok, 3, make_chan 0, world0\<lparr>user := [5, 5, 5, 1]\<rparr>))"
  by (simp add: send_sched_def send_sched_task_def try_send_priv_def try_recv_def
        try_recv_priv_def user_length_def never_abort_def log_settled_def forwarded_def
        world0_def debug_build_def make_chan_def unbounded_capacity_def assert_fails_def Let_def)

text \<open>
  C1 says that \<^verbatim>\<open>send_sched\<close> on an open bounded channel whose buffer is not full settles at
  once: \<^verbatim>\<open>on_settled(true)\<close> runs before the call returns and the value is in the buffer (or
  with a receiver). The code does otherwise. On a fresh channel of capacity 1,
  \<^verbatim>\<open>send_sched(42, [] { return false; }, on_settled)\<close> returns with the buffer still empty, the
  callback not run (the log of the world is empty) and a send waiter registered.
\<close>

theorem send_sched_bounded_leaves_waiter:
  "send_sched debug_build RValue (member_ref 42) never_abort (log_settled 0) (make_chan 1) world0
     = Inr ((make_chan 1)\<lparr>hanged_send_tasks :=
              [send_sched_task (member_ref 42) never_abort (log_settled 0)]\<rparr>, world0) \<and>
   buffer ((make_chan 1 :: (nat, (nat, nat list) world) chan)
            \<lparr>hanged_send_tasks :=
               [send_sched_task (member_ref 42) never_abort (log_settled 0)]\<rparr>) = [] \<and>
   user world0 = []"
  by (simp add: send_sched_def make_chan_def unbounded_capacity_def world0_def)

subsection \<open>The drain loop of try\_recv\_\<close>

text \<open>
  C2 says that the buffer of a bounded channel never holds more than \<open>Cap\<close> values and that
  \<^verbatim>\<open>try_recv\<close> drains hanged senders only until the buffer is full again. The code does
  otherwise. On a channel of capacity 1, \<^verbatim>\<open>send(1)\<close> fills the buffer and the blocking calls
  \<^verbatim>\<open>send(2)\<close> and \<^verbatim>\<open>send(3)\<close> hang. With \<^verbatim>\<open>NDEBUG\<close>, \<^verbatim>\<open>try_recv\<close> then returns \<open>ok\<close> with 1 and leaves
  the two values 2 and 3 in the buffer of capacity 1: the loop goes on while a sender
  hangs and never looks at the capacity. Without \<^verbatim>\<open>NDEBUG\<close>, one hanged sender is enough
  for the loop's own \<^verbatim>\<open>assert(buffer_.size() < Cap)\<close> to fail, since the sender that was
  served stays at the front of the queue.
\<close>

theorem drain_overfills_buffer:
  "send release_build RValue None 1 (make_chan 1) world0
     = Inr (Returned (ok, MovedFrom), (make_chan 1)\<lparr>buffer := [1]\<rparr>, world0) \<and>
   send release_build RValue None 2 ((make_chan 1)\<lparr>buffer := [1]\<rparr>) world0
     = Inr (Suspended 0, chan_full_one_sender, world_one_call) \<and>
   send release_build RValue None 3 chan_full_one_sender world_one_call
     = Inr (Suspended 1, chan_full_two_senders, world_two_calls) \<and>
   try_recv release_build 0 chan_full_two_senders world_two_calls
     = Some (Inr (ok, 1, (make_chan 1)\<lparr>buffer := [2, 3]\<rparr>,
         world_two_calls\<lparr>stopped := {0, 1}, done_locked := {},
           value_ref := (value_ref world0)(0 \<mapsto> MovedFrom, 1 \<mapsto> MovedFrom),
           ec_ref := (ec_ref world0)(0 \<mapsto> ok, 1 \<mapsto> ok)\<rparr>)) \<and>
   Cap ((make_chan 1 :: (nat, (nat, nat list) world) chan)\<lparr>buffer := [2, 3]\<rparr>)
     < length (buffer ((make_chan 1 :: (nat, (nat, nat list) world) chan)\<lparr>buffer := [2, 3]\<rparr>)) \<and>
   try_recv debug_build 0 chan_full_one_sender world_one_call = Some (Inl AssertionFailed)"
  by (auto simp add: world0_def debug_build_def release_build_def make_chan_def
        unbounded_capacity_def assert_fails_def forwarded_def chan_full_one_sender_def
        world_one_call_def chan_full_two_senders_def world_two_calls_def send_def try_send_priv_def stop_requested_def try_recv_def
        try_recv_priv_def drain_hanged_send.simps hanged_send_task_def)

subsection \<open>What size counts\<close>

lemma sint_64_in_range:
  assumes "- (2 ^ 63) \<le> i" and "i < 2 ^ 63"
  shows "sint (word_of_int i :: 64 word) = i"
  using assms by (simp add: sint_sbintrunc' signed_take_bit_int_eq_self)

lemma size_result_int:
  assumes "nb + ns < 2 ^ 63" and "nr \<le> 2 ^ 63"
  shows "size_result nb ns nr = int nb + int ns - int nr"
proof -
  have w: "(word_of_nat nb + word_of_nat ns - word_of_nat nr :: 64 word)
          = word_of_int (int nb + int ns - int nr)"
    by simp
  have "int nr \<le> 2 ^ 63"
    using assms(2) by (metis of_nat_le_iff of_nat_numeral of_nat_power)
  then have lo: "- (2 ^ 63) \<le> int nb + int ns - int nr"
    by linarith
  have "int (nb + ns) < 2 ^ 63"
    using assms(1) by (metis of_nat_less_iff of_nat_numeral of_nat_power)
  then have hi: "int nb + int ns - int nr < 2 ^ 63"
    by simp
  show ?thesis
    unfolding size_result_def w using lo hi by (rule sint_64_in_range)
qed

lemma filter_live_dropWhile:
  "filter (\<lambda>t. \<not> P t) (dropWhile P ts) = filter (\<lambda>t. \<not> P t) ts"
  by (induction ts) auto

lemma length_split_live_stale:
  "length (dropWhile (\<lambda>t. fst (need_abort t w)) ts) = live w ts + stale w ts"
proof -
  let ?P = "\<lambda>t. fst (need_abort t w)"
  have "length (dropWhile ?P ts)
      = length (filter (\<lambda>t. \<not> ?P t) (dropWhile ?P ts)) + length (filter ?P (dropWhile ?P ts))"
    using sum_length_filter_compl [of "\<lambda>t. \<not> ?P t" "dropWhile ?P ts"] by simp
  then show ?thesis by (simp add: live_def stale_def filter_live_dropWhile)
qed

lemma pop_aborted_popped:
  "pop_aborted ts w = (drop (popped ts w) ts, asked ts w)"
  by (induction ts arbitrary: w) (simp_all add: case_prod_beta)

lemma popped_le: "popped ts w \<le> length ts"
  by (induction ts arbitrary: w) simp_all

lemma popped_pure:
  "pure_need_abort ts \<Longrightarrow>
     popped ts w = length (takeWhile (\<lambda>t. fst (need_abort t w)) ts) \<and> asked ts w = w"
  by (induction ts) (simp_all add: pure_need_abort_def)

lemma left_pure:
  assumes "pure_need_abort ts"
  shows "length ts - popped ts w = live w ts + stale w ts"
proof -
  have "length (takeWhile (\<lambda>t. fst (need_abort t w)) ts)
          + length (dropWhile (\<lambda>t. fst (need_abort t w)) ts) = length ts"
    by (metis length_append takeWhile_dropWhile_id)
  then have "length ts - popped ts w = length (dropWhile (\<lambda>t. fst (need_abort t w)) ts)"
    using popped_pure [OF assms, of w] by simp
  then show ?thesis by (simp add: length_split_live_stale)
qed

lemma size_chan_popped:
  "size_chan c w =
     (size_result (length (buffer c)) (length (hanged_send_tasks c) - popped_send c w)
        (length (hanged_recv_tasks c) - popped (hanged_recv_tasks c) w),
      c\<lparr>hanged_recv_tasks := drop (popped (hanged_recv_tasks c) w) (hanged_recv_tasks c),
        hanged_send_tasks := drop (popped_send c w) (hanged_send_tasks c)\<rparr>,
      asked_all c w)"
  by (simp add: size_chan_def pop_aborted_popped popped_send_def asked_all_def)

lemma uc_size_popped:
  "uc_size u w =
     (size_result (length (uc_buffer u)) 0
        (length (uc_hanged_recv_tasks u) - popped (uc_hanged_recv_tasks u) w),
      u\<lparr>uc_hanged_recv_tasks :=
          drop (popped (uc_hanged_recv_tasks u) w) (uc_hanged_recv_tasks u)\<rparr>,
      asked (uc_hanged_recv_tasks u) w)"
  by (simp add: uc_size_def size_result_def pop_aborted_popped)


lemma size_examples_negative_and_above_capacity:
  "fst (size_chan chan_two_receivers world_two_receivers) = - 2 \<and>
   fst (size_chan chan_two_senders world_two_senders) = 2 \<and>
   Cap chan_two_senders = 0"
  by (simp add: size_chan_def size_result_def chan_two_receivers_def world_two_receivers_def
        chan_two_senders_def world_two_senders_def hanged_recv_task_def hanged_send_task_def
        make_chan_def world0_def unbounded_capacity_def)

text \<open>
  C4, as stated, fails. Two blocking \<^verbatim>\<open>recv\<close> calls hang on a rendezvous channel and the
  second one is cancelled. One receiver is live, so the formula of the specification gives
  -1; the aborted record stands behind the live one, is not pruned, and \<^verbatim>\<open>size()\<close> returns -2. The
  class \<^verbatim>\<open>unbounded_channel\<close> does the same.
\<close>

theorem size_live_only_counterexample:
  "recv debug_build None 0 (make_chan 0) world0
     = Some (Inr (Suspended 0, (make_chan 0)\<lparr>hanged_recv_tasks := [hanged_recv_task 0]\<rparr>,
          world0\<lparr>next_id := 1, done_locked := {0},
            value_ref := (value_ref world0)(0 \<mapsto> Holds 0)\<rparr>)) \<and>
   recv debug_build None 0 ((make_chan 0)\<lparr>hanged_recv_tasks := [hanged_recv_task 0]\<rparr>)
       (world0\<lparr>next_id := 1, done_locked := {0},
            value_ref := (value_ref world0)(0 \<mapsto> Holds 0)\<rparr>)
     = Some (Inr (Suspended 1, chan_two_receivers, world_two_receivers)) \<and>
   fst (size_chan chan_two_receivers (on_cancel 1 world_two_receivers)) = - 2 \<and>
   size_spec chan_two_receivers (on_cancel 1 world_two_receivers) = - 1 \<and>
   fst (uc_size uchan_two_receivers (on_cancel 1 world_two_receivers)) = - 2 \<and>
   uc_size_spec uchan_two_receivers (on_cancel 1 world_two_receivers) = - 1"
  by (simp add: world0_def debug_build_def release_build_def make_chan_def
        unbounded_capacity_def assert_fails_def forwarded_def chan_two_receivers_def
        uchan_two_receivers_def world_two_receivers_def recv_def try_recv_priv_def stop_requested_def size_chan_def
        size_result_def size_spec_def live_def on_cancel_def hanged_recv_task_def
        uc_size_def uc_size_spec_def)

text \<open>
  C4, amended. For every channel state with \<open>len(buffer) + len(send_waiters) < 2^63\<close> and
  \<open>len(recv_waiters) \<le> 2^63\<close>, \<^verbatim>\<open>size()\<close> asks \<^verbatim>\<open>need_abort\<close> of the record at the head of the
  receive queue and pops the record while the answer is true, stopping at the first record
  that answers false; it then does the same with the send queue, except for the unbounded
  capacity, whose send queue it leaves alone; and it returns
  \<open>len(buffer) + len(send_waiters) - len(recv_waiters)\<close> over the records that are left. Every
  record behind the first one that answered false is counted without being asked, aborted
  or not. When the abort predicates of the queued records are pure queries (those of
  blocking calls are; the predicate that \<^verbatim>\<open>select\<close> hands out is not) and no sender hangs on
  a channel of unbounded capacity, the result is
  \<open>len(buffer) + live(send_waiters) - live(recv_waiters) + stale(send_waiters) -
  stale(recv_waiters)\<close>, where \<open>live\<close> counts the records that are not aborted and \<open>stale\<close> the
  aborted records that stand behind one that is not; it then equals the live-only formula
  if and only if \<open>stale(send_waiters) = stale(recv_waiters)\<close>. The class \<^verbatim>\<open>unbounded_channel\<close>
  does the same with its one queue: the result is \<open>len(buffer) - live(recv_waiters) -
  stale(recv_waiters)\<close> and equals the live-only formula if and only if no aborted record
  stands behind a live one. The result may be negative when receivers hang (-2 with two
  hanged receivers) and may exceed the capacity when senders hang (2 with two hanged
  senders at capacity 0).
\<close>

theorem size_counts_stale:
  assumes "length (buffer c) + length (hanged_send_tasks c) < 2 ^ 63"
    and "length (hanged_recv_tasks c) \<le> 2 ^ 63"
    and "length (uc_buffer u) < 2 ^ 63"
    and "length (uc_hanged_recv_tasks u) \<le> 2 ^ 63"
  shows
    "size_chan c w =
       (int (length (buffer c)) + int (length (hanged_send_tasks c) - popped_send c w)
          - int (length (hanged_recv_tasks c) - popped (hanged_recv_tasks c) w),
        c\<lparr>hanged_recv_tasks := drop (popped (hanged_recv_tasks c) w) (hanged_recv_tasks c),
          hanged_send_tasks := drop (popped_send c w) (hanged_send_tasks c)\<rparr>,
        asked_all c w) \<and>
     (pure_need_abort (hanged_recv_tasks c) \<and> pure_need_abort (hanged_send_tasks c) \<and>
      (Cap c = unbounded_capacity \<longrightarrow> hanged_send_tasks c = []) \<longrightarrow>
        fst (size_chan c w) =
          size_spec c w + int (stale w (hanged_send_tasks c))
            - int (stale w (hanged_recv_tasks c)) \<and>
        (fst (size_chan c w) = size_spec c w \<longleftrightarrow>
           stale w (hanged_send_tasks c) = stale w (hanged_recv_tasks c))) \<and>
     uc_size u w =
       (int (length (uc_buffer u))
          - int (length (uc_hanged_recv_tasks u) - popped (uc_hanged_recv_tasks u) w),
        u\<lparr>uc_hanged_recv_tasks :=
            drop (popped (uc_hanged_recv_tasks u) w) (uc_hanged_recv_tasks u)\<rparr>,
        asked (uc_hanged_recv_tasks u) w) \<and>
     (pure_need_abort (uc_hanged_recv_tasks u) \<longrightarrow>
        fst (uc_size u w) = uc_size_spec u w - int (stale w (uc_hanged_recv_tasks u)) \<and>
        (fst (uc_size u w) = uc_size_spec u w \<longleftrightarrow> stale w (uc_hanged_recv_tasks u) = 0)) \<and>
     fst (size_chan chan_two_receivers world_two_receivers) = - 2 \<and>
     fst (size_chan chan_two_senders world_two_senders) = 2 \<and>
     Cap chan_two_senders = 0"
proof -
  let ?nr = "length (hanged_recv_tasks c) - popped (hanged_recv_tasks c) w"
  let ?ns = "length (hanged_send_tasks c) - popped_send c w"
  let ?ur = "length (uc_hanged_recv_tasks u) - popped (uc_hanged_recv_tasks u) w"
  have r: "size_result (length (buffer c)) ?ns ?nr = int (length (buffer c)) + int ?ns - int ?nr"
    using assms(1,2) by (intro size_result_int) linarith+
  have g: "size_chan c w =
       (int (length (buffer c)) + int ?ns - int ?nr,
        c\<lparr>hanged_recv_tasks := drop (popped (hanged_recv_tasks c) w) (hanged_recv_tasks c),
          hanged_send_tasks := drop (popped_send c w) (hanged_send_tasks c)\<rparr>,
        asked_all c w)"
    unfolding size_chan_popped r ..
  have ur: "size_result (length (uc_buffer u)) 0 ?ur = int (length (uc_buffer u)) + int 0 - int ?ur"
    using assms(3,4) by (intro size_result_int) linarith+
  have ug: "uc_size u w =
       (int (length (uc_buffer u)) - int ?ur,
        u\<lparr>uc_hanged_recv_tasks :=
            drop (popped (uc_hanged_recv_tasks u) w) (uc_hanged_recv_tasks u)\<rparr>,
        asked (uc_hanged_recv_tasks u) w)"
    unfolding uc_size_popped ur by simp
  have p: "fst (size_chan c w) =
          size_spec c w + int (stale w (hanged_send_tasks c))
            - int (stale w (hanged_recv_tasks c)) \<and>
        (fst (size_chan c w) = size_spec c w \<longleftrightarrow>
           stale w (hanged_send_tasks c) = stale w (hanged_recv_tasks c))"
    if h: "pure_need_abort (hanged_recv_tasks c) \<and> pure_need_abort (hanged_send_tasks c) \<and>
      (Cap c = unbounded_capacity \<longrightarrow> hanged_send_tasks c = [])"
  proof -
    from h have pr: "pure_need_abort (hanged_recv_tasks c)"
      and ps: "pure_need_abort (hanged_send_tasks c)"
      and un: "Cap c = unbounded_capacity \<longrightarrow> hanged_send_tasks c = []"
      by simp_all
    have nr: "?nr = live w (hanged_recv_tasks c) + stale w (hanged_recv_tasks c)"
      by (rule left_pure [OF pr])
    have "asked (hanged_recv_tasks c) w = w"
      using popped_pure [OF pr] by simp
    then have "?ns = length (hanged_send_tasks c) - popped (hanged_send_tasks c) w"
      using un by (simp add: popped_send_def)
    then have ns: "?ns = live w (hanged_send_tasks c) + stale w (hanged_send_tasks c)"
      using left_pure [OF ps, of w] by simp
    have e: "fst (size_chan c w) =
          size_spec c w + int (stale w (hanged_send_tasks c))
            - int (stale w (hanged_recv_tasks c))"
      unfolding g fst_conv nr ns by (simp add: size_spec_def)
    then show ?thesis by auto
  qed
  have up: "fst (uc_size u w) = uc_size_spec u w - int (stale w (uc_hanged_recv_tasks u)) \<and>
        (fst (uc_size u w) = uc_size_spec u w \<longleftrightarrow> stale w (uc_hanged_recv_tasks u) = 0)"
    if h: "pure_need_abort (uc_hanged_recv_tasks u)"
  proof -
    have "?ur = live w (uc_hanged_recv_tasks u) + stale w (uc_hanged_recv_tasks u)"
      by (rule left_pure [OF h])
    then have "fst (uc_size u w) = uc_size_spec u w - int (stale w (uc_hanged_recv_tasks u))"
      unfolding ug fst_conv by (simp add: uc_size_spec_def)
    then show ?thesis by auto
  qed
  from g p ug up size_examples_negative_and_above_capacity show ?thesis
    by blast
qed

theorem size_counts_stale_witness:
  "length (buffer chan_two_receivers) + length (hanged_send_tasks chan_two_receivers) < 2 ^ 63 \<and>
   length (hanged_recv_tasks chan_two_receivers) \<le> 2 ^ 63 \<and>
   length (uc_buffer uchan_two_receivers) < 2 ^ 63 \<and>
   length (uc_hanged_recv_tasks uchan_two_receivers) \<le> 2 ^ 63 \<and>
   pure_need_abort (hanged_recv_tasks chan_two_receivers) \<and>
   pure_need_abort (hanged_send_tasks chan_two_receivers) \<and>
   Cap chan_two_receivers \<noteq> unbounded_capacity \<and>
   pure_need_abort (uc_hanged_recv_tasks uchan_two_receivers) \<and>
   popped (hanged_recv_tasks chan_two_receivers) (on_cancel 1 world_two_receivers) = 0 \<and>
   stale (on_cancel 1 world_two_receivers) (hanged_recv_tasks chan_two_receivers) = 1 \<and>
   stale (on_cancel 1 world_two_receivers) (hanged_send_tasks chan_two_receivers) = 0 \<and>
   size_chan chan_two_receivers (on_cancel 1 world_two_receivers)
     = (- 2, chan_two_receivers, on_cancel 1 world_two_receivers) \<and>
   fst (size_chan chan_two_receivers (on_cancel 1 world_two_receivers))
     = size_spec chan_two_receivers (on_cancel 1 world_two_receivers) - 1 \<and>
   fst (uc_size uchan_two_receivers (on_cancel 1 world_two_receivers))
     = uc_size_spec uchan_two_receivers (on_cancel 1 world_two_receivers) - 1"
proof -
  have l: "length (buffer chan_two_receivers) + length (hanged_send_tasks chan_two_receivers) < 2 ^ 63"
    "length (hanged_recv_tasks chan_two_receivers) \<le> 2 ^ 63"
    by (simp_all add: chan_two_receivers_def make_chan_def)
  have ul: "length (uc_buffer uchan_two_receivers) < 2 ^ 63"
    "length (uc_hanged_recv_tasks uchan_two_receivers) \<le> 2 ^ 63"
    by (simp_all add: uchan_two_receivers_def)
  have p: "pure_need_abort (hanged_recv_tasks chan_two_receivers)"
    "pure_need_abort (hanged_send_tasks chan_two_receivers)"
    "pure_need_abort (uc_hanged_recv_tasks uchan_two_receivers)"
    by (simp_all add: pure_need_abort_def chan_two_receivers_def uchan_two_receivers_def
          make_chan_def hanged_recv_task_def)
  have n: "Cap chan_two_receivers \<noteq> unbounded_capacity"
    by (simp add: chan_two_receivers_def make_chan_def unbounded_capacity_def)
  have s: "popped (hanged_recv_tasks chan_two_receivers) (on_cancel 1 world_two_receivers) = 0"
    "popped (uc_hanged_recv_tasks uchan_two_receivers) (on_cancel 1 world_two_receivers) = 0"
    "popped_send chan_two_receivers (on_cancel 1 world_two_receivers) = 0"
    "asked_all chan_two_receivers (on_cancel 1 world_two_receivers)
       = on_cancel 1 world_two_receivers"
    "stale (on_cancel 1 world_two_receivers) (hanged_recv_tasks chan_two_receivers) = 1"
    "stale (on_cancel 1 world_two_receivers) (hanged_send_tasks chan_two_receivers) = 0"
    "stale (on_cancel 1 world_two_receivers) (uc_hanged_recv_tasks uchan_two_receivers) = 1"
    by (simp_all add: stale_def popped_send_def asked_all_def world0_def make_chan_def
          chan_two_receivers_def uchan_two_receivers_def world_two_receivers_def
          on_cancel_def hanged_recv_task_def unbounded_capacity_def)
  have c: "chan_two_receivers\<lparr>hanged_recv_tasks := hanged_recv_tasks chan_two_receivers,
       hanged_send_tasks := hanged_send_tasks chan_two_receivers\<rparr> = chan_two_receivers"
    by simp
  have k: "length (hanged_recv_tasks chan_two_receivers) = 2"
    "length (hanged_send_tasks chan_two_receivers) = 0"
    "length (buffer chan_two_receivers) = 0"
    by (simp_all add: chan_two_receivers_def make_chan_def)
  note t = size_counts_stale [OF l ul, where w = "on_cancel 1 world_two_receivers"]
  have g: "size_chan chan_two_receivers (on_cancel 1 world_two_receivers)
     = (- 2, chan_two_receivers, on_cancel 1 world_two_receivers)"
    unfolding t [THEN conjunct1] s k drop_0 c by simp
  have "fst (size_chan chan_two_receivers (on_cancel 1 world_two_receivers)) =
          size_spec chan_two_receivers (on_cancel 1 world_two_receivers)
            + int (stale (on_cancel 1 world_two_receivers) (hanged_send_tasks chan_two_receivers))
            - int (stale (on_cancel 1 world_two_receivers) (hanged_recv_tasks chan_two_receivers))"
    using t [THEN conjunct2, THEN conjunct1] p n by blast
  then have f: "fst (size_chan chan_two_receivers (on_cancel 1 world_two_receivers))
     = size_spec chan_two_receivers (on_cancel 1 world_two_receivers) - 1"
    unfolding s by simp
  have "fst (uc_size uchan_two_receivers (on_cancel 1 world_two_receivers)) =
          uc_size_spec uchan_two_receivers (on_cancel 1 world_two_receivers)
            - int (stale (on_cancel 1 world_two_receivers)
                     (uc_hanged_recv_tasks uchan_two_receivers))"
    using t [THEN conjunct2, THEN conjunct2, THEN conjunct2, THEN conjunct1] p by blast
  then have uf: "fst (uc_size uchan_two_receivers (on_cancel 1 world_two_receivers))
     = uc_size_spec uchan_two_receivers (on_cancel 1 world_two_receivers) - 1"
    unfolding s by simp
  from l ul p n s(1,5,6) g f uf show ?thesis
    by blast
qed

text \<open>The two counts of stale records can cancel: with one aborted record behind a live one
  in each queue, \<^verbatim>\<open>size()\<close> returns what the live-only formula gives.\<close>

lemma size_equal_with_stale_records:
  "fst (size_chan chan_stale_both world0) = 0 \<and>
   size_spec chan_stale_both world0 = 0 \<and>
   stale world0 (hanged_recv_tasks chan_stale_both) = 1 \<and>
   stale world0 (hanged_send_tasks chan_stale_both) = 1"
  by (simp add: size_chan_def size_result_def size_spec_def live_def stale_def
        chan_stale_both_def make_chan_def never_abort_def always_abort_def send_sched_task_def
        unbounded_capacity_def)

text \<open>With the predicate of \<^verbatim>\<open>select\<close> the answers depend on the order of the questions: the
  receive record answers false and commits the context, the send record of the same
  \<^verbatim>\<open>select\<close> then answers true and is popped, and \<^verbatim>\<open>size()\<close> returns -1.\<close>

lemma size_with_predicate_of_select:
  "size_chan chan_shared_predicate world_one_select
     = (- 1, chan_shared_predicate\<lparr>hanged_send_tasks := []\<rparr>, cancel 0 world_one_select) \<and>
   popped (hanged_recv_tasks chan_shared_predicate) world_one_select = 0 \<and>
   popped_send chan_shared_predicate world_one_select = 1 \<and>
   \<not> pure_need_abort (hanged_recv_tasks chan_shared_predicate)"
proof -
  have "snd (select_need_abort 0 world_one_select) \<noteq> world_one_select"
    by (simp add: select_need_abort_def cancel_def world_one_select_def world0_def)
  then have "\<not> pure_need_abort (hanged_recv_tasks chan_shared_predicate)"
    by (auto simp: pure_need_abort_def chan_shared_predicate_def make_chan_def)
  then show ?thesis
    by (simp add: size_chan_def size_result_def popped_send_def chan_shared_predicate_def
          make_chan_def select_need_abort_def cancel_def send_sched_task_def
          world_one_select_def world0_def unbounded_capacity_def)
qed

subsection \<open>The greedy pass of select\<close>

lemma no_new_waiters_refl: "no_new_waiters ch ch"
  by (cases ch) (simp_all add: no_new_waiters_def)

lemma no_new_waiters_trans:
  "no_new_waiters a b \<Longrightarrow> no_new_waiters b c \<Longrightarrow> no_new_waiters a c"
  by (cases a; cases b; cases c) (auto simp: no_new_waiters_def intro: suffix_order.trans)

lemma send_to_hanged_recv_suffix:
  "send_to_hanged_recv b v buf ts w = Inr (r, rs, w') \<Longrightarrow> suffix rs ts"
  by (induction ts arbitrary: w) (auto split: if_splits prod.splits intro: suffix_ConsI)

lemma recv_from_hanged_send_suffix:
  "recv_from_hanged_send b n v buf ts w = Inr (r, v', ss, w') \<Longrightarrow> suffix ss ts"
  by (induction ts arbitrary: w) (auto split: if_splits prod.splits intro: suffix_ConsI)

lemma drain_hanged_send_suffix:
  assumes "drain_hanged_send b c w = Some (Inr (c', w'))"
  shows "suffix (hanged_send_tasks c') (hanged_send_tasks c)"
proof -
  have "case r of Inl e \<Rightarrow> True
           | Inr (c', w') \<Rightarrow> suffix (hanged_send_tasks c') (hanged_send_tasks c)"
    if "drain_hanged_send b c w = Some r" for r
    using that
  proof (induction b c w r rule: drain_hanged_send.raw_induct [rotated 1, consumes 1])
    case (1 drain b c w r)
    show ?case
    proof (cases "hanged_send_tasks c")
      case Nil
      with 1(2) show ?thesis by auto
    next
      case (Cons t ts)
      show ?thesis
      proof (cases "assert_fails b (length (buffer c) < Cap c)")
        case True
        with 1(2) Cons show ?thesis by auto
      next
        case False
        obtain a w1 where na: "need_abort t w = (a, w1)" by (cases "need_abort t w")
        show ?thesis
        proof (cases a)
          case True
          with 1(2) Cons False na
          have "drain b (c\<lparr>hanged_send_tasks := ts\<rparr>) w1 = Some r" by simp
          from 1(1) [OF this] Cons show ?thesis
            by (auto split: sum.splits intro: suffix_ConsI)
        next
          case nf: False
          obtain x w2 where ex: "execute t True (T_default b) w1 = (x, w2)"
            by (cases "execute t True (T_default b) w1")
          with 1(2) Cons False na nf
          have "drain b (c\<lparr>buffer := buffer c @ [x]\<rparr>) w2 = Some r" by simp
          from 1(1) [OF this] show ?thesis by (auto split: sum.splits)
        qed
      qed
    qed
  qed
  from this [OF assms] show ?thesis by simp
qed

lemma try_send_no_new_waiters:
  "try_send b U v c w = Inr (ec, s, c', w') \<Longrightarrow> no_new_waiters (Bounded c) (Bounded c')"
  by (auto simp: try_send_def try_send_priv_def no_new_waiters_def Let_def
           split: if_splits sum.splits prod.splits bool.splits
           dest: send_to_hanged_recv_suffix)

lemma uc_try_send_no_new_waiters:
  "uc_try_send b U v u w = Inr (ec, s, u', w') \<Longrightarrow> no_new_waiters (Unbounded u) (Unbounded u')"
  by (auto simp: uc_try_send_def uc_try_send_priv_def no_new_waiters_def
           split: if_splits sum.splits prod.splits bool.splits
           dest: send_to_hanged_recv_suffix)

lemma try_recv_priv_no_new_waiters:
  assumes "try_recv_priv b v c w = Some (Inr (r, v', c', w'))"
  shows "no_new_waiters (Bounded c) (Bounded c')"
proof (cases "Cap c \<noteq> 0 \<and> buffer c \<noteq> [] \<and> Cap c \<noteq> unbounded_capacity")
  case True
  with assms obtain c2 w2 where
    d: "drain_hanged_send b (c\<lparr>buffer := tl (buffer c)\<rparr>) w = Some (Inr (c2, w2))"
    and c': "c' = c2"
    by (auto simp: try_recv_priv_def Let_def split: if_splits option.splits sum.splits)
  from drain_hanged_send_suffix [OF d] drain_hanged_send_frame [OF d] c' show ?thesis
    by (simp add: no_new_waiters_def)
next
  case False
  with assms show ?thesis
    by (auto simp: try_recv_priv_def no_new_waiters_def Let_def
             split: if_splits sum.splits prod.splits
             dest: recv_from_hanged_send_suffix)
qed

lemma try_recv_no_new_waiters:
  "try_recv b v c w = Some (Inr (ec, v', c', w')) \<Longrightarrow> no_new_waiters (Bounded c) (Bounded c')"
  by (auto simp: try_recv_def no_new_waiters_refl
           split: if_splits option.splits sum.splits prod.splits
           dest: try_recv_priv_no_new_waiters)

lemma uc_try_recv_no_new_waiters:
  "uc_try_recv v u = (ec, v', u') \<Longrightarrow> no_new_waiters (Unbounded u) (Unbounded u')"
  by (auto simp: uc_try_recv_def uc_try_recv_priv_def no_new_waiters_def split: if_splits)

lemma map_sum_id_Inr:
  "map_sum id f z = Inr y \<Longrightarrow> \<exists>x. z = Inr x \<and> y = f x"
  by (cases z) auto

lemma chan_try_recv_no_new_waiters:
  assumes "chan_try_recv b v ch w = Some (Inr (ec, v', ch', w'))"
  shows "no_new_waiters ch ch'"
proof (cases ch)
  case (Bounded c)
  with assms obtain z where z: "try_recv b v c w = Some z"
    and m: "map_sum id (\<lambda>(ec, v', c', w'). (ec, v', Bounded c', w')) z = Inr (ec, v', ch', w')"
    by (auto simp: chan_try_recv_def)
  from map_sum_id_Inr [OF m] obtain x where x: "z = Inr x"
    and e: "(ec, v', ch', w') = (\<lambda>(ec, v', c', w'). (ec, v', Bounded c', w')) x"
    by blast
  obtain ec0 v0 c0 w0 where x0: "x = (ec0, v0, c0, w0)" by (cases x)
  with e have "ch' = Bounded c0" by simp
  moreover from z x x0 have "no_new_waiters (Bounded c) (Bounded c0)"
    by (auto dest: try_recv_no_new_waiters)
  ultimately show ?thesis using Bounded by simp
next
  case (Unbounded u)
  with assms show ?thesis
    by (auto simp: chan_try_recv_def split: prod.splits dest: uc_try_recv_no_new_waiters)
qed

lemma chan_try_send_no_new_waiters:
  assumes "chan_try_send b U v ch w = Inr (ec, s, ch', w')"
  shows "no_new_waiters ch ch'"
proof (cases ch)
  case (Bounded c)
  with assms have
    m: "map_sum id (\<lambda>(ec, s, c', w'). (ec, s, Bounded c', w')) (try_send b U v c w)
          = Inr (ec, s, ch', w')"
    by (simp add: chan_try_send_def)
  from map_sum_id_Inr [OF m] obtain x where x: "try_send b U v c w = Inr x"
    and e: "(ec, s, ch', w') = (\<lambda>(ec, s, c', w'). (ec, s, Bounded c', w')) x"
    by blast
  obtain ec0 s0 c0 w0 where x0: "x = (ec0, s0, c0, w0)" by (cases x)
  with e have "ch' = Bounded c0" by simp
  moreover from x x0 have "no_new_waiters (Bounded c) (Bounded c0)"
    by (auto dest: try_send_no_new_waiters)
  ultimately show ?thesis using Bounded by simp
next
  case (Unbounded u)
  with assms have
    m: "map_sum id (\<lambda>(ec, s, c', w'). (ec, s, Unbounded c', w')) (uc_try_send b U v u w)
          = Inr (ec, s, ch', w')"
    by (simp add: chan_try_send_def)
  from map_sum_id_Inr [OF m] obtain x where x: "uc_try_send b U v u w = Inr x"
    and e: "(ec, s, ch', w') = (\<lambda>(ec, s, c', w'). (ec, s, Unbounded c', w')) x"
    by blast
  obtain ec0 s0 u0 w0 where x0: "x = (ec0, s0, u0, w0)" by (cases x)
  with e have "ch' = Unbounded u0" by simp
  moreover from x x0 have "no_new_waiters (Unbounded u) (Unbounded u0)"
    by (auto dest: uc_try_send_no_new_waiters)
  ultimately show ?thesis using Unbounded by simp
qed

lemma try_execute_no_new_waiters:
  assumes "try_execute b opn s = Some (Inr (r, s'))"
  shows "no_new_waiters (chans s k) (chans s' k)"
proof (cases opn)
  case (recv_op j f)
  with assms obtain ec v ch w where
    t: "chan_try_recv b (T_default b) (chans s j) (env s) = Some (Inr (ec, v, ch, w))"
    and s': "chans s' = (chans s)(j := ch)"
    by (auto simp: try_execute_def split: option.splits sum.splits if_splits)
  from chan_try_recv_no_new_waiters [OF t] s' show ?thesis
    by (simp add: no_new_waiters_refl)
next
  case (send_op U j v f)
  with assms obtain ec sl ch w where
    t: "chan_try_send b U v (chans s j) (env s) = Inr (ec, sl, ch, w)"
    and s': "chans s' = (chans s)(j := ch)"
    by (auto simp: try_execute_def split: sum.splits if_splits)
  from chan_try_send_no_new_waiters [OF t] s' show ?thesis
    by (simp add: no_new_waiters_refl)
qed

lemma try_execute_all_True:
  "try_execute_all b True ops s = Some (Inr (True, s))"
  by (induction ops) simp_all

lemma try_execute_all_chain:
  assumes "length ss = Suc (length pre)"
    and "\<forall>i < length pre. try_execute b (pre ! i) (ss ! i) = Some (Inr (False, ss ! Suc i))"
  shows "try_execute_all b False (pre @ rest) (ss ! 0)
           = try_execute_all b False rest (ss ! length pre) \<and>
         (\<forall>k. no_new_waiters (chans (ss ! 0) k) (chans (ss ! length pre) k))"
  using assms
proof (induction pre arbitrary: ss)
  case Nil
  then show ?case by (simp add: no_new_waiters_refl)
next
  case (Cons x xs)
  from Cons.prems(1) obtain s0 ss' where ss: "ss = s0 # ss'" and l: "length ss' = Suc (length xs)"
    by (cases ss) auto
  from Cons.prems(2) have h: "try_execute b x s0 = Some (Inr (False, ss' ! 0))"
    unfolding ss by fastforce
  have c: "\<forall>i < length xs. try_execute b (xs ! i) (ss' ! i) = Some (Inr (False, ss' ! Suc i))"
  proof (intro allI impI)
    fix i assume "i < length xs"
    then have "Suc i < length (x # xs)" by simp
    with Cons.prems(2) have
      "try_execute b ((x # xs) ! Suc i) (ss ! Suc i) = Some (Inr (False, ss ! Suc (Suc i)))"
      by blast
    then show "try_execute b (xs ! i) (ss' ! i) = Some (Inr (False, ss' ! Suc i))"
      by (simp add: ss)
  qed
  from Cons.IH [OF l c] h try_execute_no_new_waiters [OF h] show ?case
    by (auto simp: ss intro: no_new_waiters_trans)
qed

text \<open>
  C5. \<^verbatim>\<open>select\<close> first calls \<^verbatim>\<open>try_execute\<close> on the operations in the order given. When the
  operations \<open>pre\<close> report, one after the other and each in the state its predecessor left
  (the states \<open>ss\<close>), that they are not settled, and the next operation \<open>opn\<close> reports that it
  is, then \<^verbatim>\<open>select\<close> returns at once in the state that \<open>opn\<close> left: whatever the operations
  \<open>post\<close> behind it, the fallback and the token are, they have no effect, so \<^verbatim>\<open>try_execute\<close>
  is not called on a later operation and nothing is scheduled; and no channel has a waiter
  that it did not have before the call.
\<close>

theorem select_first_settled:
  assumes "length ss = Suc (length pre)"
    and "\<forall>i < length pre. try_execute b (pre ! i) (ss ! i) = Some (Inr (False, ss ! Suc i))"
    and "try_execute b opn (ss ! length pre) = Some (Inr (True, s'))"
  shows "select b token (pre @ opn # post) fallback (ss ! 0) = Some (Inr (Returned (), s')) \<and>
         (\<forall>k. no_new_waiters (chans (ss ! 0) k) (chans s' k))"
proof -
  from try_execute_all_chain [OF assms(1,2), of "opn # post"]
  have 1: "try_execute_all b False (pre @ opn # post) (ss ! 0)
             = try_execute_all b False (opn # post) (ss ! length pre)"
    and 2: "\<forall>k. no_new_waiters (chans (ss ! 0) k) (chans (ss ! length pre) k)"
    by simp_all
  have "try_execute_all b False (opn # post) (ss ! length pre) = Some (Inr (True, s'))"
    using assms(3) by (simp add: try_execute_all_True)
  with 1 have "select b token (pre @ opn # post) fallback (ss ! 0) = Some (Inr (Returned (), s'))"
    by (simp add: select_def)
  moreover have "\<forall>k. no_new_waiters (chans (ss ! 0) k) (chans s' k)"
    using 2 try_execute_no_new_waiters [OF assms(3)] by (blast intro: no_new_waiters_trans)
  ultimately show ?thesis by simp
qed

theorem select_first_settled_witness:
  "length [sys_two_chans, sys_two_chans] = Suc (length [recv_op 0 (log_received 10)]) \<and>
   try_execute debug_build (recv_op 0 (log_received 10)) sys_two_chans
     = Some (Inr (False, sys_two_chans)) \<and>
   try_execute debug_build (recv_op 1 (log_received 20)) sys_two_chans
     = Some (Inr (True, sys_received)) \<and>
   select debug_build None
       [recv_op 0 (log_received 10), recv_op 1 (log_received 20),
        send_op RValue 1 9 (log_settled 30)]
       None sys_two_chans
     = Some (Inr (Returned (), sys_received)) \<and>
   no_new_waiters (chans sys_two_chans 0) (chans sys_received 0)"
proof -
  have t0: "try_execute debug_build (recv_op 0 (log_received 10)) sys_two_chans
     = Some (Inr (False, sys_two_chans))"
    by (simp add: try_execute_def chan_try_recv_def try_recv_def try_recv_priv_def
          sys_two_chans_def world0_def debug_build_def release_build_def make_chan_def
        unbounded_capacity_def assert_fails_def forwarded_def uchan_open_buffered_def fun_upd_idem)
  have t1: "try_execute debug_build (recv_op 1 (log_received 20)) sys_two_chans
     = Some (Inr (True, sys_received))"
    by (simp add: try_execute_def chan_try_recv_def uc_try_recv_def uc_try_recv_priv_def
          sys_two_chans_def sys_received_def log_received_def world0_def debug_build_def release_build_def make_chan_def
        unbounded_capacity_def assert_fails_def forwarded_def uchan_open_buffered_def)
  have l: "length [sys_two_chans, sys_two_chans] = Suc (length [recv_op 0 (log_received 10)])"
    by simp
  have c: "\<forall>i < length [recv_op 0 (log_received 10)].
      try_execute debug_build ([recv_op 0 (log_received 10)] ! i)
        ([sys_two_chans, sys_two_chans] ! i)
      = Some (Inr (False, [sys_two_chans, sys_two_chans] ! Suc i))"
    using t0 by simp
  have h: "try_execute debug_build (recv_op 1 (log_received 20))
      ([sys_two_chans, sys_two_chans] ! length [recv_op 0 (log_received 10)])
      = Some (Inr (True, sys_received))"
    using t1 by simp
  show ?thesis
    using l t0 t1
      select_first_settled [OF l c h, where token = None
        and post = "[send_op RValue 1 9 (log_settled 30)]" and fallback = None]
    by simp
qed

subsection \<open>select when no operation is ready\<close>

text \<open>With one receive operation on an empty channel \<^verbatim>\<open>select\<close> registers the waiter and waits
  on \<^verbatim>\<open>done\<close>. With a token that is already stop-requested, and with a receive and a send
  operation on one rendezvous channel (scheduling the send asks the predicate of the
  receive waiter that was registered just before), the call waits for the mutex it holds
  and never returns.\<close>

lemma select_registers_and_waits:
  "select debug_build None [recv_op 0 (log_received 10)] None sys_empty
     = Some (Inr (Suspended 0,
         \<lparr>chans = (\<lambda>_. Bounded (make_chan 0))
            (0 := Bounded ((make_chan 0)\<lparr>hanged_recv_tasks :=
                    [\<lparr>need_abort = select_need_abort 0, execute = log_received 10\<rparr>]\<rparr>)),
          env = world_one_select\<rparr>))"
  by (simp add: select_def try_execute_def schedule_def chan_try_recv_def chan_recv_sched_def
        try_recv_def try_recv_priv_def recv_sched_def stop_requested_def
        sys_empty_def world_one_select_def world0_def debug_build_def make_chan_def
        unbounded_capacity_def assert_fails_def Let_def)

lemma select_with_stopped_token_never_returns:
  "select debug_build (Some 0) [recv_op 0 (log_received 10)] None (sys_empty\<lparr>env := world_stopped\<rparr>)
     = None"
  by (simp add: select_def try_execute_def schedule_def chan_try_recv_def chan_recv_sched_def
        try_recv_def try_recv_priv_def recv_sched_def stop_requested_def
        sys_empty_def world_stopped_def world0_def debug_build_def make_chan_def
        unbounded_capacity_def assert_fails_def Let_def)

lemma select_on_one_channel_never_returns:
  "select debug_build None
     [recv_op 0 (log_received 10), send_op RValue 0 9 (log_settled 30)] None sys_empty
     = None"
  by (simp add: select_def try_execute_def schedule_def chan_try_recv_def chan_recv_sched_def
        chan_try_send_def chan_send_sched_def try_send_def try_send_priv_def send_sched_def
        try_recv_def try_recv_priv_def recv_sched_def stop_requested_def
        select_need_abort_def cancel_def forwarded_def member_ref_def log_settled_def
        log_received_def
        sys_empty_def world0_def debug_build_def make_chan_def
        unbounded_capacity_def assert_fails_def Let_def)

end
